theory Spec2Isabelle
  imports Complex_Main "HOL-Library.Product_Lexorder" "HOL-Library.Multiset"
begin

section \<open>Data model (types.ts)\<close>

text \<open>
  Conventions of the embedding.
  \<^item> A calendar date string \<^verbatim>\<open>YYYY-MM-DD\<close> is its day number (days since
    1970-01-01); the string order the source uses (\<^verbatim>\<open><\<close>, \<^verbatim>\<open><=\<close>,
    \<^verbatim>\<open>sort()\<close>) is the order of day numbers. Dates are read in UTC, so that
    \<^verbatim>\<open>toISOString().split('T')[0]\<close> and \<^verbatim>\<open>getDay()\<close> speak about the same day.
  \<^item> A time-of-day string is either the empty string or \<^verbatim>\<open>HH:MM\<close>.
  \<^item> A JavaScript number holding hours is a real number: the embedding computes with
    exact arithmetic where the source computes with IEEE doubles.
  \<^item> An optional field is an \<open>option\<close>.
\<close>

type_synonym day = int

definition getDay :: "day \<Rightarrow> nat" where
  "getDay d = nat ((d + 4) mod 7)"

datatype timestr = Blank | HM nat nat

datatype session_status =
  Scheduled | In_progress | Completed | Missed | Overdue | Rescheduled | Skipped

datatype task_status = TaskPending | TaskInProgress | TaskCompleted

datatype commitment_type = Class | Work | Appointment | Other | Buffer

datatype plan_mode = Eisenhower | Even

record Task =
  task_id :: string
  title :: string
  deadline :: day
  importance :: bool
  estimatedHours :: real
  task_status :: task_status

record StudySession =
  taskId :: string
  scheduledTime :: "day \<times> timestr"
  startTime :: timestr
  endTime :: timestr
  allocatedHours :: real
  sessionNumber :: "nat option"
  isFlexible :: "bool option"
  isManualOverride :: "bool option"
  done_flag :: "bool option"
  status :: "session_status option"
  actualHours :: "real option"
  completedAt :: "string option"
  originalTime :: "timestr option"
  originalDate :: "day option"
  rescheduledAt :: "string option"

record StudyPlan =
  plan_id :: day
  date :: day
  plannedTasks :: "StudySession list"
  totalStudyHours :: real
  availableHours :: real
  isOverloaded :: "bool option"

record UserSettings =
  dailyAvailableHours :: real
  workDays :: "nat list"
  bufferDays :: nat
  minSessionLength :: nat
  bufferTimeBetweenSessions :: nat
  studyWindowStartHour :: nat
  studyWindowEndHour :: nat
  studyPlanMode :: "plan_mode option"

record Modification =
  m_startTime :: "timestr option"
  m_endTime :: "timestr option"
  m_title :: "string option"
  m_type :: "commitment_type option"

record FixedCommitment =
  c_id :: string
  c_title :: string
  c_startTime :: timestr
  c_endTime :: timestr
  recurring :: bool
  daysOfWeek :: "nat list"
  specificDates :: "day list option"
  deletedOccurrences :: "day list option"
  modifiedOccurrences :: "day \<rightharpoonup> Modification"
  c_type :: commitment_type

text \<open>The wall clock: the UTC date of \<^verbatim>\<open>new Date()\<close> and its time of day in minutes.\<close>

record clock =
  today :: day
  nowMin :: real

section \<open>Small helpers of the source\<close>

text \<open>JavaScript truthiness of a (possibly absent) string: present and not empty.\<close>

fun truthyTime :: "timestr option \<Rightarrow> bool" where
  "truthyTime (Some (HM h m)) = True"
| "truthyTime _ = False"

fun truthyDate :: "day option \<Rightarrow> bool" where
  "truthyDate (Some d) = True"
| "truthyDate None = False"

text \<open>\<^verbatim>\<open>const [h, m] = t.split(":").map(Number); h * 60 + (m || 0)\<close>: the empty string
  splits to one empty piece, whose number is 0.\<close>

fun timeMinutes :: "timestr \<Rightarrow> int" where
  "timeMinutes Blank = 0"
| "timeMinutes (HM h m) = int h * 60 + int m"

text \<open>\<^verbatim>\<open>new Date(`${planDate}T${t}:00`)\<close> as minutes after midnight of the plan date; the
  empty string gives an Invalid Date.\<close>

fun dateTimeMinutes :: "timestr \<Rightarrow> real option" where
  "dateTimeMinutes Blank = None"
| "dateTimeMinutes (HM h m) = Some (real h * 60 + real m)"

text \<open>The order \<^verbatim>\<open>localeCompare\<close> gives two time-of-day strings.\<close>

fun timeKey :: "timestr \<Rightarrow> int" where
  "timeKey Blank = -1"
| "timeKey (HM h m) = int h * 100 + int m"

text \<open>\<^verbatim>\<open>Math.round(x * 60) / 60\<close>.\<close>

definition roundMinutes :: "real \<Rightarrow> real" where
  "roundMinutes x = of_int \<lfloor>x * 60 + 1 / 2\<rfloor> / 60"

definition minutesToTime :: "int \<Rightarrow> timestr" where
  "minutesToTime c = HM (nat (c div 60)) (nat (c mod 60))"

text \<open>\<^verbatim>\<open>sessions.reduce((sum, session) => sum + session.allocatedHours, 0)\<close>.\<close>

definition sumHours :: "StudySession list \<Rightarrow> real" where
  "sumHours sessions = foldl (\<lambda>sum session. sum + allocatedHours session) 0 sessions"

definition calculateTotalStudyHours :: "StudySession list \<Rightarrow> real" where
  "calculateTotalStudyHours sessions =
     sumHours (filter (\<lambda>session. done_flag session = Some True \<or> status session = Some Skipped)
       sessions)"

definition minSessionLengthHours :: "UserSettings \<Rightarrow> real" where
  "minSessionLengthHours settings =
     real (if minSessionLength settings = 0 then 15 else minSessionLength settings) / 60"

definition maxSessionLengthHours :: "UserSettings \<Rightarrow> real" where
  "maxSessionLengthHours settings = min 4 (dailyAvailableHours settings)"

section \<open>Session-status classifier\<close>

definition checkSessionStatus :: "clock \<Rightarrow> StudySession \<Rightarrow> day \<Rightarrow> session_status" where
  "checkSessionStatus clk session planDate =
    (if done_flag session = Some True \<or> status session = Some Completed then Completed
     else if status session = Some Skipped then Completed
     else if truthyTime (originalTime session) \<and> truthyDate (originalDate session) then Rescheduled
     else if planDate < today clk then
       (if truthyTime (originalTime session) \<and> truthyDate (originalDate session) then Scheduled
        else Missed)
     else if planDate = today clk then
       (case (dateTimeMinutes (startTime session), dateTimeMinutes (endTime session)) of
          (Some sessionStartTime, Some sessionEndTime) \<Rightarrow>
            if nowMin clk < sessionStartTime then Scheduled
            else if nowMin clk \<ge> sessionStartTime \<and> nowMin clk \<le> sessionEndTime then In_progress
            else Overdue
        | (Some sessionStartTime, None) \<Rightarrow>
            if nowMin clk < sessionStartTime then Scheduled else Overdue
        | (None, _) \<Rightarrow> Overdue)
     else Scheduled)"

definition isMissedOrRedistributedSession :: "clock \<Rightarrow> StudySession \<Rightarrow> day \<Rightarrow> bool" where
  "isMissedOrRedistributedSession clk session planDate =
    (checkSessionStatus clk session planDate = Missed
     \<or> isManualOverride session = Some True
     \<or> (truthyTime (originalTime session) \<and> truthyDate (originalDate session)))"

section \<open>Slot finder\<close>

text \<open>The busy interval one commitment contributes on the target date.\<close>

definition commitmentInterval :: "day option \<Rightarrow> FixedCommitment \<Rightarrow> int \<times> int" where
  "commitmentInterval targetDate c =
    (let s = timeMinutes (c_startTime c); e = timeMinutes (c_endTime c) in
     case (case targetDate of None \<Rightarrow> None | Some d \<Rightarrow> modifiedOccurrences c d) of
       Some modified \<Rightarrow>
         (if truthyTime (m_startTime modified)
          then (timeMinutes (the (m_startTime modified)), e)
          else if truthyTime (m_endTime modified)
          then (s, timeMinutes (the (m_endTime modified)))
          else (s, e))
     | None \<Rightarrow> (s, e))"

definition activeCommitments :: "day option \<Rightarrow> FixedCommitment list \<Rightarrow> FixedCommitment list" where
  "activeCommitments targetDate commitments =
    filter (\<lambda>commitment.
      case targetDate of
        None \<Rightarrow> True
      | Some d \<Rightarrow> \<not> (case deletedOccurrences commitment of None \<Rightarrow> False | Some ds \<Rightarrow> d \<in> set ds))
      commitments"

definition busyIntervals ::
  "StudySession list \<Rightarrow> FixedCommitment list \<Rightarrow> day option \<Rightarrow> (int \<times> int) list" where
  "busyIntervals existingSessions commitments targetDate =
    sort_key fst
      (map (\<lambda>s. (timeMinutes (startTime s), timeMinutes (endTime s))) existingSessions
       @ map (commitmentInterval targetDate) (activeCommitments targetDate commitments))"

text \<open>The walk over the sorted busy intervals, \<open>current\<close> being the cursor.\<close>

fun scanIntervals :: "int \<Rightarrow> int \<Rightarrow> int \<Rightarrow> int \<Rightarrow> (int \<times> int) list \<Rightarrow> (int \<times> int) option" where
  "scanIntervals requiredMinutes buffer endOfDay current [] =
     (if endOfDay - current \<ge> requiredMinutes then Some (current, current + requiredMinutes)
      else None)"
| "scanIntervals requiredMinutes buffer endOfDay current (interval # rest) =
     (if fst interval - current \<ge> requiredMinutes then Some (current, current + requiredMinutes)
      else scanIntervals requiredMinutes buffer endOfDay (max current (snd interval + buffer)) rest)"

definition findSlotMinutes ::
  "real \<Rightarrow> StudySession list \<Rightarrow> FixedCommitment list \<Rightarrow> nat \<Rightarrow> nat \<Rightarrow> nat \<Rightarrow> day option
     \<Rightarrow> (int \<times> int) option" where
  "findSlotMinutes requiredHours existingSessions commitments windowStartHour
      windowEndHour bufferTime targetDate =
    scanIntervals \<lceil>requiredHours * 60\<rceil> (int bufferTime) (int windowEndHour * 60)
      (int windowStartHour * 60) (busyIntervals existingSessions commitments targetDate)"

definition findNextAvailableTimeSlot ::
  "real \<Rightarrow> StudySession list \<Rightarrow> FixedCommitment list \<Rightarrow> nat \<Rightarrow> nat \<Rightarrow> nat \<Rightarrow> day option
     \<Rightarrow> (timestr \<times> timestr) option" where
  "findNextAvailableTimeSlot requiredHours existingSessions commitments windowStartHour
      windowEndHour bufferTime targetDate =
    map_option (\<lambda>(s, e). (minutesToTime s, minutesToTime e))
      (findSlotMinutes requiredHours existingSessions commitments windowStartHour
         windowEndHour bufferTime targetDate)"

section \<open>Session combination\<close>

text \<open>
  \<^verbatim>\<open>sessionsByTask\<close> is a JavaScript object keyed by task id whose values are arrays;
  \<^verbatim>\<open>Object.entries\<close> lists it in the order in which the keys were first inserted
  (task ids are not array indices). It is an association list kept in insertion order.
\<close>

definition pushSession ::
  "StudySession \<Rightarrow> (string \<times> StudySession list) list \<Rightarrow> (string \<times> StudySession list) list" where
  "pushSession session sessionsByTask =
    (if taskId session \<in> fst ` set sessionsByTask
     then map (\<lambda>(k, sessions). if k = taskId session then (k, sessions @ [session]) else (k, sessions))
            sessionsByTask
     else sessionsByTask @ [(taskId session, [session])])"

definition groupByTask :: "StudySession list \<Rightarrow> (string \<times> StudySession list) list" where
  "groupByTask sessions = foldl (\<lambda>sessionsByTask session. pushSession session sessionsByTask) [] sessions"

definition sortByStartTime :: "StudySession list \<Rightarrow> StudySession list" where
  "sortByStartTime sessions = sort_key (\<lambda>s. timeKey (startTime s)) sessions"

definition combinedSession :: "StudySession list \<Rightarrow> StudySession" where
  "combinedSession sortedSessions =
    (let firstSession = hd sortedSessions; lastSession = last sortedSessions in
     firstSession\<lparr>startTime := startTime firstSession, endTime := endTime lastSession,
       allocatedHours := sumHours sortedSessions, sessionNumber := Some 1\<rparr>)"

definition combineGroup :: "StudySession list \<Rightarrow> StudySession" where
  "combineGroup sessions =
    (if length sessions > 1 then combinedSession (sortByStartTime sessions) else hd sessions)"

definition combinePlan :: "StudyPlan \<Rightarrow> StudyPlan" where
  "combinePlan plan =
    (let sessionsByTask = groupByTask (filter (\<lambda>s. status s \<noteq> Some Skipped) (plannedTasks plan));
         combinedSessions = map (\<lambda>(k, sessions). combineGroup sessions) sessionsByTask;
         skippedSessions = filter (\<lambda>s. status s = Some Skipped) (plannedTasks plan);
         newTasks = combinedSessions @ skippedSessions
     in plan\<lparr>plannedTasks := newTasks, totalStudyHours := calculateTotalStudyHours newTasks\<rparr>)"

definition combineSessionsOnSameDay :: "StudyPlan list \<Rightarrow> StudyPlan list" where
  "combineSessionsOnSameDay studyPlans = map combinePlan studyPlans"

text \<open>The variant used by redistribution: a merge is made only when the merged length is
  within the session-length bounds; skipped sessions are not carried over.\<close>

definition combineGroupWithValidation :: "UserSettings \<Rightarrow> StudySession list \<Rightarrow> StudySession list" where
  "combineGroupWithValidation settings sessions =
    (if length sessions > 1 then
       (let sortedSessions = sortByStartTime sessions; totalHours = sumHours sortedSessions in
        if totalHours \<ge> minSessionLengthHours settings \<and> totalHours \<le> maxSessionLengthHours settings
        then [combinedSession sortedSessions]
        else sortedSessions)
     else sessions)"

definition combinePlanWithValidation :: "UserSettings \<Rightarrow> StudyPlan \<Rightarrow> StudyPlan" where
  "combinePlanWithValidation settings plan =
    (let sessionsByTask = groupByTask (filter (\<lambda>s. status s \<noteq> Some Skipped) (plannedTasks plan));
         combinedSessions =
           concat (map (\<lambda>(k, sessions). combineGroupWithValidation settings sessions) sessionsByTask)
     in plan\<lparr>plannedTasks := combinedSessions, totalStudyHours := sumHours combinedSessions\<rparr>)"

definition combineSessionsOnSameDayWithValidation ::
  "StudyPlan list \<Rightarrow> UserSettings \<Rightarrow> StudyPlan list" where
  "combineSessionsOnSameDayWithValidation studyPlans settings =
     map (combinePlanWithValidation settings) studyPlans"


section \<open>Plan generator: common parts\<close>

text \<open>\<^verbatim>\<open>x || d\<close> on a number: the default replaces 0.\<close>

definition orDefault :: "nat \<Rightarrow> nat \<Rightarrow> nat" where
  "orDefault x d = (if x = 0 then d else x)"

text \<open>Important tasks first, then the earlier deadline first; the sort is stable.\<close>

definition sortTasks :: "Task list \<Rightarrow> Task list" where
  "sortTasks ts = sort_key (\<lambda>t. (if importance t then (0::nat) else 1, deadline t)) ts"

definition pendingTasks :: "Task list \<Rightarrow> Task list" where
  "pendingTasks ts = filter (\<lambda>t. task_status t = TaskPending \<and> estimatedHours t > 0) ts"

text \<open>The deadline of a task moved earlier by the buffer days.\<close>

definition bufferedDeadline :: "UserSettings \<Rightarrow> Task \<Rightarrow> day" where
  "bufferedDeadline settings t = deadline t - int (bufferDays settings)"

text \<open>
  The days from now up to the latest deadline that are work days. The loop of the source
  advances a timestamp that keeps the time of day of \<open>now\<close> and compares it with midnight
  of the latest deadline. Without tasks the latest deadline is an Invalid Date and the loop
  does not run.
\<close>

definition loopDays :: "clock \<Rightarrow> UserSettings \<Rightarrow> Task list \<Rightarrow> day list" where
  "loopDays clk settings ts =
    (case ts of
       [] \<Rightarrow> []
     | t # rest \<Rightarrow>
        (let latestDeadline = foldl max (deadline t) (map deadline rest) in
         filter (\<lambda>d. getDay d \<in> set (workDays settings))
           (filter (\<lambda>d. real_of_int d * 1440 + nowMin clk \<le> real_of_int latestDeadline * 1440)
              [today clk..latestDeadline])))"

definition addDeadlineDay :: "UserSettings \<Rightarrow> day list \<Rightarrow> Task \<Rightarrow> day list" where
  "addDeadlineDay settings days t =
    (let deadlineDate = bufferedDeadline settings t in
     if deadlineDate \<notin> set days \<and> getDay deadlineDate \<in> set (workDays settings)
     then days @ [deadlineDate] else days)"

definition availableDaysOf :: "clock \<Rightarrow> UserSettings \<Rightarrow> Task list \<Rightarrow> day list" where
  "availableDaysOf clk settings ts =
     sort (foldl (addDeadlineDay settings) (loopDays clk settings ts) ts)"

definition emptyPlan :: "UserSettings \<Rightarrow> day \<Rightarrow> StudyPlan" where
  "emptyPlan settings d =
    \<lparr>plan_id = d, date = d, plannedTasks = [], totalStudyHours = 0,
     availableHours = dailyAvailableHours settings, isOverloaded = None\<rparr>"

text \<open>\<^verbatim>\<open>studyPlans.find(p => p.date === date)\<close> followed by a change of the plan found.\<close>

fun updatePlan :: "day \<Rightarrow> (StudyPlan \<Rightarrow> StudyPlan) \<Rightarrow> StudyPlan list \<Rightarrow> StudyPlan list" where
  "updatePlan d f [] = []"
| "updatePlan d f (p # ps) = (if date p = d then f p # ps else p # updatePlan d f ps)"

definition commitmentsForDay :: "FixedCommitment list \<Rightarrow> day \<Rightarrow> FixedCommitment list" where
  "commitmentsForDay fixedCommitments d =
    filter (\<lambda>commitment.
      if recurring commitment then getDay d \<in> set (daysOfWeek commitment)
      else (case specificDates commitment of None \<Rightarrow> False | Some ds \<Rightarrow> d \<in> set ds))
      fixedCommitments"

record Suggestion =
  taskTitle :: string
  unscheduledMinutes :: int
  s_importance :: "bool option"
  s_deadline :: "day option"

section \<open>Plan generator: even mode\<close>

definition newSession :: "string \<Rightarrow> day \<Rightarrow> timestr \<Rightarrow> timestr \<Rightarrow> real \<Rightarrow> nat \<Rightarrow> StudySession" where
  "newSession tid d start fin hours n =
    \<lparr>taskId = tid, scheduledTime = (d, start), startTime = start, endTime = fin,
     allocatedHours = hours, sessionNumber = Some n, isFlexible = Some True,
     isManualOverride = None, done_flag = None, status = Some Scheduled, actualHours = None,
     completedAt = None, originalTime = None, originalDate = None, rescheduledAt = None\<rparr>"

text \<open>The state of even mode: the plans and \<^verbatim>\<open>dailyRemainingHours\<close>. Only the entries of
  the available days are ever read.\<close>

type_synonym evenState = "StudyPlan list \<times> (day \<Rightarrow> real)"

text \<open>Push a session of the given (already rounded) length on the plan of day \<open>d\<close>.\<close>

definition pushRounded :: "string \<Rightarrow> day \<Rightarrow> real \<Rightarrow> evenState \<Rightarrow> evenState" where
  "pushRounded tid d roundedSessionLength st =
    (case st of (studyPlans, dailyRemainingHours) \<Rightarrow>
      (updatePlan d
         (\<lambda>dayPlan. dayPlan
            \<lparr>plannedTasks := plannedTasks dayPlan @
               [newSession tid d Blank Blank roundedSessionLength
                  (length (filter (\<lambda>s. taskId s = tid) (plannedTasks dayPlan)) + 1)],
             totalStudyHours := roundMinutes (totalStudyHours dayPlan + roundedSessionLength)\<rparr>)
         studyPlans,
       dailyRemainingHours(d := roundMinutes (dailyRemainingHours d - roundedSessionLength))))"

text \<open>The loop of \<open>optimizeSessionDistribution\<close>; \<open>k\<close> is \<^verbatim>\<open>numSessions - i\<close>.\<close>

fun optimizeLoop :: "real \<Rightarrow> real \<Rightarrow> nat \<Rightarrow> real \<Rightarrow> real list \<Rightarrow> real list \<times> real" where
  "optimizeLoop minLen maxLen 0 remainingHours optimalSessions = (optimalSessions, remainingHours)"
| "optimizeLoop minLen maxLen (Suc k) remainingHours optimalSessions =
    (if remainingHours > 0 then
       (let sessionLength = min (remainingHours / real (Suc k)) (min maxLen remainingHours) in
        if sessionLength \<ge> minLen
        then optimizeLoop minLen maxLen k (remainingHours - sessionLength)
               (optimalSessions @ [sessionLength])
        else optimizeLoop minLen maxLen k remainingHours optimalSessions)
     else (optimalSessions, remainingHours))"

definition optimizeSessionDistribution :: "UserSettings \<Rightarrow> real \<Rightarrow> nat \<Rightarrow> real list" where
  "optimizeSessionDistribution settings totalHours nDays =
    (let minLen = minSessionLengthHours settings;
         maxLen = maxSessionLengthHours settings;
         maxSessionsWithMinLength = \<lfloor>totalHours / minLen\<rfloor>;
         numSessions = min (int nDays) maxSessionsWithMinLength;
         numSessions = (if numSessions = 0 then int nDays else numSessions);
         (optimalSessions, remainingHours) =
            optimizeLoop minLen maxLen (nat numSessions) totalHours []
     in if remainingHours > 0 \<and> optimalSessions \<noteq> []
        then (hd optimalSessions + remainingHours) # tl optimalSessions
        else optimalSessions)"

text \<open>One round of \<open>redistributeUnscheduledHours\<close> places the optimal sessions on the days
  that have capacity left.\<close>

definition redistributeStep ::
  "UserSettings \<Rightarrow> string \<Rightarrow> evenState \<times> real \<Rightarrow> real \<times> day \<Rightarrow> evenState \<times> real" where
  "redistributeStep settings tid acc x =
    (case (acc, x) of ((st, distributedThisRound), (optimal, d)) \<Rightarrow>
      (let sessionLength = min optimal (snd st d) in
       if sessionLength \<ge> minSessionLengthHours settings
       then (pushRounded tid d (roundMinutes sessionLength) st,
             roundMinutes (distributedThisRound + roundMinutes sessionLength))
       else (st, distributedThisRound)))"

fun redistributeRounds ::
  "nat \<Rightarrow> UserSettings \<Rightarrow> string \<Rightarrow> day list \<Rightarrow> real \<Rightarrow> evenState \<Rightarrow> evenState \<times> real" where
  "redistributeRounds 0 settings tid daysForTask remainingUnscheduledHours st =
     (st, remainingUnscheduledHours)"
| "redistributeRounds (Suc n) settings tid daysForTask remainingUnscheduledHours st =
    (if remainingUnscheduledHours > 0 then
       (let availableDaysForRedistribution = filter (\<lambda>d. snd st d > 0) daysForTask in
        if availableDaysForRedistribution = [] then (st, remainingUnscheduledHours)
        else
          (let optimalSessions = optimizeSessionDistribution settings remainingUnscheduledHours
                 (length availableDaysForRedistribution);
               (st', distributedThisRound) =
                 foldl (redistributeStep settings tid) (st, 0)
                   (zip optimalSessions availableDaysForRedistribution)
           in if distributedThisRound = 0
              then (st', remainingUnscheduledHours - distributedThisRound)
              else redistributeRounds n settings tid daysForTask
                     (remainingUnscheduledHours - distributedThisRound) st'))
     else (st, remainingUnscheduledHours))"

definition redistributeUnscheduledHours ::
  "UserSettings \<Rightarrow> Task \<Rightarrow> real \<Rightarrow> day list \<Rightarrow> evenState \<Rightarrow> evenState \<times> real" where
  "redistributeUnscheduledHours settings task unscheduledHours daysForTask st =
     redistributeRounds 10 settings (task_id task) daysForTask unscheduledHours st"

definition daysForTaskOf :: "UserSettings \<Rightarrow> day list \<Rightarrow> Task \<Rightarrow> day list" where
  "daysForTaskOf settings availableDays task =
     filter (\<lambda>d. d \<le> bufferedDeadline settings task) availableDays"

text \<open>The first allocation of a task: its sessions are laid on its days in order.\<close>

definition assignStep :: "string \<Rightarrow> evenState \<times> real \<Rightarrow> real \<times> day \<Rightarrow> evenState \<times> real" where
  "assignStep tid acc x =
    (case (acc, x) of ((st, unscheduledHours), (sessionLength, d)) \<Rightarrow>
      (let thisSessionLength = min sessionLength (snd st d) in
       if thisSessionLength > 0
       then (pushRounded tid d (roundMinutes thisSessionLength) st, unscheduledHours)
       else (st, unscheduledHours + sessionLength)))"

definition distributeTask :: "UserSettings \<Rightarrow> day list \<Rightarrow> evenState \<Rightarrow> Task \<Rightarrow> evenState" where
  "distributeTask settings availableDays st task =
    (let daysForTask = daysForTaskOf settings availableDays task in
     if daysForTask = [] then st
     else
       (let sessionLengths =
              optimizeSessionDistribution settings (estimatedHours task) (length daysForTask);
            (st', unscheduledHours) =
              foldl (assignStep (task_id task)) (st, 0) (zip sessionLengths daysForTask)
        in if unscheduledHours > 0
           then fst (redistributeUnscheduledHours settings task unscheduledHours daysForTask st')
           else st'))"

text \<open>\<^verbatim>\<open>taskScheduledHours[id] || 0\<close> after the scan of all plans.\<close>

definition taskScheduledHoursOf :: "StudyPlan list \<Rightarrow> string \<Rightarrow> real" where
  "taskScheduledHoursOf studyPlans tid =
     foldl (\<lambda>acc plan.
        foldl (\<lambda>a session.
            if status session \<noteq> Some Skipped \<and> taskId session = tid
            then a + allocatedHours session else a)
          acc (plannedTasks plan))
       0 studyPlans"

definition globalRedistributeTask ::
  "UserSettings \<Rightarrow> day list \<Rightarrow> (string \<Rightarrow> real) \<Rightarrow> evenState \<Rightarrow> Task \<Rightarrow> evenState" where
  "globalRedistributeTask settings availableDays taskScheduledHours st task =
    (let unscheduledHours = estimatedHours task - taskScheduledHours (task_id task) in
     if unscheduledHours \<le> 0 then st
     else fst (redistributeUnscheduledHours settings task unscheduledHours
                 (daysForTaskOf settings availableDays task) st))"

definition evenSuggestions :: "Task list \<Rightarrow> (string \<Rightarrow> real) \<Rightarrow> Suggestion list" where
  "evenSuggestions tasksEven taskScheduledHours =
    concat (map (\<lambda>task.
      (let unscheduledHours = estimatedHours task - taskScheduledHours (task_id task) in
       if unscheduledHours > 16 / 1000
       then [\<lparr>taskTitle = title task, unscheduledMinutes = \<lfloor>unscheduledHours * 60 + 1 / 2\<rfloor>,
              s_importance = None, s_deadline = None\<rparr>]
       else [])) tasksEven)"

text \<open>The order of the sessions of a day before slots are assigned. Every session of the
  generated plans belongs to a task of \<open>tasksEven\<close>; for a session without task the
  comparator of the source answers 0 against every other session.\<close>

definition sortSessionsByTask :: "Task list \<Rightarrow> StudySession list \<Rightarrow> StudySession list" where
  "sortSessionsByTask tasksEven sessions =
    sort_key (\<lambda>s. case find (\<lambda>t. task_id t = taskId s) tasksEven of
                      Some t \<Rightarrow> (if importance t then (0::nat) else 1, deadline t)
                    | None \<Rightarrow> (0, 0)) sessions"

definition assignSlotStep ::
  "UserSettings \<Rightarrow> FixedCommitment list \<Rightarrow> day \<Rightarrow> StudySession list \<times> StudySession list
     \<Rightarrow> StudySession \<Rightarrow> StudySession list \<times> StudySession list" where
  "assignSlotStep settings dayCommitments d acc session =
    (case acc of (assignedSessions, result) \<Rightarrow>
      (case findNextAvailableTimeSlot (allocatedHours session) assignedSessions dayCommitments
              (orDefault (studyWindowStartHour settings) 6)
              (orDefault (studyWindowEndHour settings) 23)
              (bufferTimeBetweenSessions settings) (Some d) of
         Some slot \<Rightarrow>
           (let placed = session\<lparr>startTime := fst slot, endTime := snd slot\<rparr>
            in (assignedSessions @ [placed], result @ [placed]))
       | None \<Rightarrow> (assignedSessions, result @ [session\<lparr>startTime := Blank, endTime := Blank\<rparr>])))"

definition assignTimeSlots ::
  "UserSettings \<Rightarrow> FixedCommitment list \<Rightarrow> Task list \<Rightarrow> StudyPlan \<Rightarrow> StudyPlan" where
  "assignTimeSlots settings fixedCommitments tasksEven plan =
    plan\<lparr>plannedTasks :=
      snd (foldl (assignSlotStep settings (commitmentsForDay fixedCommitments (date plan)) (date plan))
             ([], []) (sortSessionsByTask tasksEven (plannedTasks plan)))\<rparr>"

text \<open>The missed sessions of the existing plans whose task is still pending.\<close>

definition missedSessionsToRedistribute ::
  "clock \<Rightarrow> Task list \<Rightarrow> StudyPlan list \<Rightarrow> (StudySession \<times> day \<times> Task) list" where
  "missedSessionsToRedistribute clk tasks existingStudyPlans =
    concat (map (\<lambda>plan.
      concat (map (\<lambda>session.
        if checkSessionStatus clk session (date plan) = Missed then
          (case find (\<lambda>t. task_id t = taskId session) tasks of
             Some task \<Rightarrow> if task_status task = TaskPending then [(session, date plan, task)] else []
           | None \<Rightarrow> [])
        else []) (plannedTasks plan))) existingStudyPlans)"

text \<open>\<^verbatim>\<open>missedSessionHoursByTask\<close>, an object keyed by task id, in insertion order.\<close>

definition addMissedHours :: "(string \<times> real) list \<Rightarrow> StudySession \<times> day \<times> Task \<Rightarrow> (string \<times> real) list" where
  "addMissedHours byTask x =
    (case x of (session, planDate, task) \<Rightarrow>
      if task_id task \<in> fst ` set byTask
      then map (\<lambda>(k, h). if k = task_id task then (k, h + allocatedHours session) else (k, h)) byTask
      else byTask @ [(task_id task, 0 + allocatedHours session)])"

definition missedSessionHoursByTask :: "(StudySession \<times> day \<times> Task) list \<Rightarrow> (string \<times> real) list" where
  "missedSessionHoursByTask missed = foldl addMissedHours [] missed"

definition redistributeMissedTask ::
  "UserSettings \<Rightarrow> day list \<Rightarrow> (string \<times> real) list \<Rightarrow> evenState \<Rightarrow> Task \<Rightarrow> evenState" where
  "redistributeMissedTask settings availableDays byTask st task =
    (case map_of byTask (task_id task) of
       None \<Rightarrow> st
     | Some missedHours \<Rightarrow>
         if missedHours \<le> 0 then st
         else fst (redistributeUnscheduledHours settings task missedHours
                     (daysForTaskOf settings availableDays task) st))"

definition generateEven ::
  "clock \<Rightarrow> Task list \<Rightarrow> UserSettings \<Rightarrow> FixedCommitment list \<Rightarrow> StudyPlan list
     \<Rightarrow> StudyPlan list \<times> Suggestion list" where
  "generateEven clk tasks settings fixedCommitments existingStudyPlans =
    (let tasksEven = sortTasks (pendingTasks tasks);
         byTask = missedSessionHoursByTask
                    (missedSessionsToRedistribute clk tasks existingStudyPlans);
         availableDays = availableDaysOf clk settings tasksEven;
         st0 = (map (emptyPlan settings) availableDays, \<lambda>d. dailyAvailableHours settings);
         st1 = foldl (distributeTask settings availableDays) st0 tasksEven;
         st2 = (combineSessionsOnSameDay (fst st1), snd st1);
         taskScheduledHours = taskScheduledHoursOf (fst st2);
         tasksWithUnscheduledHours =
           filter (\<lambda>task. estimatedHours task - taskScheduledHours (task_id task) > 0) tasksEven;
         stG = (if tasksWithUnscheduledHours \<noteq> []
                then foldl (globalRedistributeTask settings availableDays taskScheduledHours)
                       st2 (sortTasks tasksWithUnscheduledHours)
                else st2);
         taskScheduledHours' =
           (if tasksWithUnscheduledHours \<noteq> [] then taskScheduledHoursOf (fst stG)
            else taskScheduledHours);
         st3 = (if tasksWithUnscheduledHours \<noteq> []
                then (combineSessionsOnSameDay (fst stG), snd stG) else st2);
         suggestions = evenSuggestions tasksEven taskScheduledHours';
         st4 = (map (assignTimeSlots settings fixedCommitments tasksEven) (fst st3), snd st3);
         st5 = (if byTask \<noteq> [] then
                  (let tasksWithMissedSessions =
                         sortTasks (List.map_filter
                           (\<lambda>k. find (\<lambda>t. task_id t = k) tasksEven) (map fst byTask));
                       st' = foldl (redistributeMissedTask settings availableDays byTask)
                               st4 tasksWithMissedSessions
                   in (combineSessionsOnSameDay (fst st'), snd st'))
                else st4)
     in (fst st5, suggestions))"

section \<open>Plan generator: eisenhower mode\<close>

text \<open>The work on one task within one day. The state is the plan of the day,
  \<^verbatim>\<open>dailyRemainingHours[date]\<close>, \<^verbatim>\<open>availableHours\<close> and \<^verbatim>\<open>taskScheduledHours\<close>.\<close>

type_synonym dayState = "StudyPlan \<times> real \<times> real \<times> (string \<Rightarrow> real)"

fun eisenhowerTasks ::
  "UserSettings \<Rightarrow> FixedCommitment list \<Rightarrow> day \<Rightarrow> Task list \<Rightarrow> dayState \<Rightarrow> dayState" where
  "eisenhowerTasks settings dayCommitments d [] st = st"
| "eisenhowerTasks settings dayCommitments d (task # rest) st =
    (case st of (dayPlan, remainingOfDay, avail, taskScheduledHours) \<Rightarrow>
      if avail \<le> 0 then st
      else
        (let remainingTaskHours = estimatedHours task - taskScheduledHours (task_id task) in
         if remainingTaskHours \<le> 0 then eisenhowerTasks settings dayCommitments d rest st
         else
           (let hoursToSchedule = min remainingTaskHours avail in
            if hoursToSchedule > 0 then
              (case findNextAvailableTimeSlot hoursToSchedule (plannedTasks dayPlan) dayCommitments
                      (orDefault (studyWindowStartHour settings) 6)
                      (orDefault (studyWindowEndHour settings) 23)
                      (bufferTimeBetweenSessions settings) (Some d) of
                 None \<Rightarrow> eisenhowerTasks settings dayCommitments d rest st
               | Some slot \<Rightarrow>
                  (let session = newSession (task_id task) d (fst slot) (snd slot)
                         (roundMinutes hoursToSchedule)
                         (length (filter (\<lambda>s. taskId s = task_id task) (plannedTasks dayPlan)) + 1)
                   in eisenhowerTasks settings dayCommitments d rest
                        (dayPlan\<lparr>plannedTasks := plannedTasks dayPlan @ [session],
                           totalStudyHours :=
                             roundMinutes (totalStudyHours dayPlan + allocatedHours session)\<rparr>,
                         roundMinutes (remainingOfDay - allocatedHours session),
                         roundMinutes (avail - allocatedHours session),
                         taskScheduledHours(task_id task :=
                           roundMinutes (taskScheduledHours (task_id task) + allocatedHours session)))))
            else eisenhowerTasks settings dayCommitments d rest st)))"

text \<open>The state across days: the plans, \<^verbatim>\<open>dailyRemainingHours\<close> and \<^verbatim>\<open>taskScheduledHours\<close>.\<close>

type_synonym eisenhowerState = "StudyPlan list \<times> (day \<Rightarrow> real) \<times> (string \<Rightarrow> real)"

definition eisenhowerDay ::
  "UserSettings \<Rightarrow> FixedCommitment list \<Rightarrow> Task list \<Rightarrow> eisenhowerState \<Rightarrow> day \<Rightarrow> eisenhowerState" where
  "eisenhowerDay settings fixedCommitments tasksSorted st d =
    (case st of (studyPlans, dailyRemainingHours, taskScheduledHours) \<Rightarrow>
      (case find (\<lambda>p. date p = d) studyPlans of
         None \<Rightarrow> st
       | Some dayPlan \<Rightarrow>
          (let tasksForDay =
                 filter (\<lambda>task. taskScheduledHours (task_id task) < estimatedHours task
                                 \<and> d \<le> bufferedDeadline settings task) tasksSorted
           in case eisenhowerTasks settings (commitmentsForDay fixedCommitments d) d tasksForDay
                     (dayPlan, dailyRemainingHours d, dailyRemainingHours d, taskScheduledHours) of
                (dayPlan', remainingOfDay, avail, taskScheduledHours') \<Rightarrow>
                  (updatePlan d (\<lambda>p. dayPlan') studyPlans,
                   dailyRemainingHours(d := remainingOfDay), taskScheduledHours'))))"

definition getUnscheduledMinutesForTasks ::
  "Task list \<Rightarrow> (string \<Rightarrow> real) \<Rightarrow> UserSettings option \<Rightarrow> Suggestion list" where
  "getUnscheduledMinutesForTasks tasks taskScheduledHours settings =
    (let minSessionLengthHrs =
           (case settings of
              None \<Rightarrow> 16 / 1000
            | Some st \<Rightarrow> if minSessionLength st \<noteq> 0 then real (minSessionLength st) / 60
                         else 16 / 1000)
     in concat (map (\<lambda>task.
          (let unscheduled = max 0 (estimatedHours task - taskScheduledHours (task_id task)) in
           if unscheduled > minSessionLengthHrs
           then [\<lparr>taskTitle = title task, unscheduledMinutes = \<lfloor>unscheduled * 60 + 1 / 2\<rfloor>,
                  s_importance = Some (importance task), s_deadline = Some (deadline task)\<rparr>]
           else []))
          (filter (\<lambda>task. task_status task = TaskPending) tasks)))"

definition generateEisenhower ::
  "clock \<Rightarrow> Task list \<Rightarrow> UserSettings \<Rightarrow> FixedCommitment list
     \<Rightarrow> StudyPlan list \<times> Suggestion list" where
  "generateEisenhower clk tasks settings fixedCommitments =
    (let tasksSorted = sortTasks (pendingTasks tasks);
         availableDays = availableDaysOf clk settings tasksSorted;
         st0 = (map (emptyPlan settings) availableDays, \<lambda>d. dailyAvailableHours settings,
                \<lambda>tid. 0);
         st1 = foldl (eisenhowerDay settings fixedCommitments tasksSorted) st0 availableDays
     in (fst st1,
         getUnscheduledMinutesForTasks tasksSorted (snd (snd st1)) (Some settings)))"

definition generateNewStudyPlan ::
  "clock \<Rightarrow> Task list \<Rightarrow> UserSettings \<Rightarrow> FixedCommitment list \<Rightarrow> StudyPlan list
     \<Rightarrow> StudyPlan list \<times> Suggestion list" where
  "generateNewStudyPlan clk tasks settings fixedCommitments existingStudyPlans =
    (if studyPlanMode settings = Some Even
     then generateEven clk tasks settings fixedCommitments existingStudyPlans
     else generateEisenhower clk tasks settings fixedCommitments)"

section \<open>Conflict validator\<close>

definition sessionsOverlap :: "StudySession \<Rightarrow> StudySession \<Rightarrow> bool" where
  "sessionsOverlap sessionA sessionB =
    (truthyTime (Some (startTime sessionA)) \<and> truthyTime (Some (endTime sessionA))
     \<and> truthyTime (Some (startTime sessionB)) \<and> truthyTime (Some (endTime sessionB))
     \<and> timeMinutes (startTime sessionA) < timeMinutes (endTime sessionB)
     \<and> timeMinutes (endTime sessionA) > timeMinutes (startTime sessionB))"

fun anyOverlap :: "StudySession list \<Rightarrow> bool" where
  "anyOverlap [] = False"
| "anyOverlap (sessionA # rest) = (list_ex (sessionsOverlap sessionA) rest \<or> anyOverlap rest)"

definition planHasConflict :: "clock \<Rightarrow> UserSettings \<Rightarrow> StudyPlan \<Rightarrow> bool" where
  "planHasConflict clk settings plan =
    (let sessions = filter (\<lambda>session. status session \<noteq> Some Skipped) (plannedTasks plan);
         regularSessions =
           filter (\<lambda>session. \<not> isMissedOrRedistributedSession clk session (date plan)) sessions;
         totalRegularHours = sumHours regularSessions
     in anyOverlap sessions
        \<or> totalRegularHours > dailyAvailableHours settings
        \<or> list_ex (\<lambda>session. allocatedHours session < minSessionLengthHours settings
                           \<or> allocatedHours session > maxSessionLengthHours settings)
             regularSessions)"

definition validateStudyPlanConflicts ::
  "clock \<Rightarrow> StudyPlan list \<Rightarrow> UserSettings \<Rightarrow> FixedCommitment list \<Rightarrow> bool" where
  "validateStudyPlanConflicts clk studyPlans settings fixedCommitments =
     list_ex (planHasConflict clk settings) studyPlans"

section \<open>Redistribution engine\<close>

text \<open>
  The redistribution works on plan objects in place. The plan objects live in a store, a
  list whose positions are the addresses; an array of plans is a list of addresses.
  \<^verbatim>\<open>[...studyPlans]\<close> copies the list of addresses, not the plans. Sessions are never
  changed in place, so they are values.
\<close>

type_synonym ref = nat
type_synonym store = "StudyPlan list"

definition planValues :: "store \<Rightarrow> ref list \<Rightarrow> StudyPlan list" where
  "planValues h refs = map (\<lambda>r. h ! r) refs"

datatype error = InvalidDate

record MissedEntry =
  ms_session :: StudySession
  ms_planDate :: day
  ms_planIndex :: nat
  ms_sessionIndex :: nat
  ms_task :: "Task option"
  ms_priority :: real

text \<open>Days from now to midnight of the deadline, as a fraction.\<close>

definition daysUntilDeadline :: "clock \<Rightarrow> Task \<Rightarrow> real" where
  "daysUntilDeadline clk task =
     (real_of_int (deadline task) * 1440 - (real_of_int (today clk) * 1440 + nowMin clk)) / 1440"

definition priorityOf :: "clock \<Rightarrow> Task option \<Rightarrow> real" where
  "priorityOf clk task =
    (case task of
       None \<Rightarrow> 0
     | Some t \<Rightarrow>
         (if importance t then 1000 else 0)
         + (if daysUntilDeadline clk t < 0 then 2000 else max 0 (100 - daysUntilDeadline clk t)))"

definition collectMissed :: "clock \<Rightarrow> Task list \<Rightarrow> StudyPlan list \<Rightarrow> MissedEntry list" where
  "collectMissed clk tasks studyPlans =
    concat (map (\<lambda>(planIndex, plan).
      concat (map (\<lambda>(sessionIndex, session).
        if checkSessionStatus clk session (date plan) = Missed then
          [\<lparr>ms_session = session, ms_planDate = date plan, ms_planIndex = planIndex,
            ms_sessionIndex = sessionIndex,
            ms_task = find (\<lambda>t. task_id t = taskId session) tasks,
            ms_priority = priorityOf clk (find (\<lambda>t. task_id t = taskId session) tasks)\<rparr>]
        else []) (enumerate 0 (plannedTasks plan)))) (enumerate 0 studyPlans))"

definition sortByPriority :: "MissedEntry list \<Rightarrow> MissedEntry list" where
  "sortByPriority entries = sort_key (\<lambda>e. - ms_priority e) entries"

text \<open>A time of day as minutes on the target date; the empty string gives an Invalid
  Date. The source goes on with it and sorts by a comparator that answers NaN; the model
  stops with an error.\<close>

definition slotOfTimes :: "timestr \<Rightarrow> timestr \<Rightarrow> error + (real \<times> real)" where
  "slotOfTimes s e =
    (case (dateTimeMinutes s, dateTimeMinutes e) of
       (Some a, Some b) \<Rightarrow> Inr (a, b)
     | _ \<Rightarrow> Inl InvalidDate)"

fun collectSlots :: "(error + (real \<times> real)) list \<Rightarrow> error + (real \<times> real) list" where
  "collectSlots [] = Inr []"
| "collectSlots (x # xs) =
    (case x of
       Inl e \<Rightarrow> Inl e
     | Inr slot \<Rightarrow> (case collectSlots xs of Inl e \<Rightarrow> Inl e | Inr slots \<Rightarrow> Inr (slot # slots)))"

definition getBusyTimeSlots ::
  "FixedCommitment list \<Rightarrow> store \<Rightarrow> ref list \<Rightarrow> day \<Rightarrow> error + (real \<times> real) list" where
  "getBusyTimeSlots fixedCommitments h updatedPlans d =
    (let commitmentSlots =
           map (\<lambda>commitment. slotOfTimes (c_startTime commitment) (c_endTime commitment))
             (commitmentsForDay fixedCommitments d);
         sessionSlots =
           (case find (\<lambda>r. date (h ! r) = d) updatedPlans of
              None \<Rightarrow> []
            | Some r \<Rightarrow>
                map (\<lambda>session. slotOfTimes (startTime session) (endTime session))
                  (filter (\<lambda>session. status session \<noteq> Some Skipped) (plannedTasks (h ! r))))
     in case collectSlots (commitmentSlots @ sessionSlots) of
          Inl e \<Rightarrow> Inl e
        | Inr busySlots \<Rightarrow> Inr (sort_key fst busySlots))"

fun gapsBetween :: "real \<Rightarrow> real \<Rightarrow> real \<Rightarrow> (real \<times> real) list \<Rightarrow> (real \<times> real) list" where
  "gapsBetween minLen studyWindowEnd currentTime [] =
    (if currentTime < studyWindowEnd \<and> (studyWindowEnd - currentTime) / 60 \<ge> minLen
     then [(currentTime, studyWindowEnd)] else [])"
| "gapsBetween minLen studyWindowEnd currentTime (busySlot # rest) =
    (if currentTime < fst busySlot \<and> (fst busySlot - currentTime) / 60 \<ge> minLen
     then (currentTime, fst busySlot) # gapsBetween minLen studyWindowEnd (snd busySlot) rest
     else gapsBetween minLen studyWindowEnd (snd busySlot) rest)"

definition findAvailableTimeSlots :: "UserSettings \<Rightarrow> (real \<times> real) list \<Rightarrow> (real \<times> real) list" where
  "findAvailableTimeSlots settings busySlots =
    gapsBetween (minSessionLengthHours settings)
      (real (orDefault (studyWindowEndHour settings) 23) * 60)
      (real (orDefault (studyWindowStartHour settings) 6) * 60) busySlots"

text \<open>The first available slot of a day that is long enough, free of conflicts with the
  buffer applied, and admitted by the length test.\<close>

definition slotSuits ::
  "clock \<Rightarrow> UserSettings \<Rightarrow> (real \<times> real) list \<Rightarrow> StudySession \<Rightarrow> real \<Rightarrow> day
     \<Rightarrow> real \<times> real \<Rightarrow> bool" where
  "slotSuits clk settings busySlots session sessionDuration targetDate slot =
    ((snd slot - fst slot) / 60 \<ge> sessionDuration
     \<and> \<not> list_ex (\<lambda>existingSlot.
            fst slot - real (bufferTimeBetweenSessions settings) < snd existingSlot
            \<and> fst slot + sessionDuration * 60 + real (bufferTimeBetweenSessions settings)
                  > fst existingSlot) busySlots
     \<and> (checkSessionStatus clk session targetDate = Missed
          \<or> (sessionDuration \<ge> minSessionLengthHours settings
              \<and> sessionDuration \<le> maxSessionLengthHours settings)))"

fun tryDays ::
  "clock \<Rightarrow> UserSettings \<Rightarrow> FixedCommitment list \<Rightarrow> store \<Rightarrow> ref list \<Rightarrow> StudySession
     \<Rightarrow> real \<Rightarrow> day list \<Rightarrow> error + (day \<times> timestr) option" where
  "tryDays clk settings fixedCommitments h updatedPlans session sessionDuration [] = Inr None"
| "tryDays clk settings fixedCommitments h updatedPlans session sessionDuration (targetDate # rest) =
    (if getDay targetDate \<notin> set (workDays settings)
     then tryDays clk settings fixedCommitments h updatedPlans session sessionDuration rest
     else
       (case getBusyTimeSlots fixedCommitments h updatedPlans targetDate of
          Inl e \<Rightarrow> Inl e
        | Inr busySlots \<Rightarrow>
           (case find (slotSuits clk settings busySlots session sessionDuration targetDate)
                   (findAvailableTimeSlots settings busySlots) of
              Some slot \<Rightarrow> Inr (Some (targetDate, minutesToTime \<lfloor>fst slot\<rfloor>))
            | None \<Rightarrow>
                tryDays clk settings fixedCommitments h updatedPlans session sessionDuration rest)))"

definition tryMoveSession ::
  "clock \<Rightarrow> UserSettings \<Rightarrow> FixedCommitment list \<Rightarrow> store \<Rightarrow> ref list \<Rightarrow> StudySession
     \<Rightarrow> real \<Rightarrow> error + (day \<times> timestr) option" where
  "tryMoveSession clk settings fixedCommitments h updatedPlans session sessionDuration =
     tryDays clk settings fixedCommitments h updatedPlans session sessionDuration
       (map (\<lambda>dayOffset. today clk + int dayOffset) [0..<15])"

text \<open>Missed sessions grouped by task id, the groups in the order of first insertion.\<close>

definition pushEntry ::
  "MissedEntry \<Rightarrow> (string \<times> MissedEntry list) list \<Rightarrow> (string \<times> MissedEntry list) list" where
  "pushEntry entry sessionsByTask =
    (if taskId (ms_session entry) \<in> fst ` set sessionsByTask
     then map (\<lambda>(k, entries). if k = taskId (ms_session entry) then (k, entries @ [entry])
                             else (k, entries)) sessionsByTask
     else sessionsByTask @ [(taskId (ms_session entry), [entry])])"

definition processingOrder :: "MissedEntry list \<Rightarrow> MissedEntry list" where
  "processingOrder missedSessions =
    concat (map (\<lambda>(k, taskSessions). sortByPriority taskSessions)
      (foldl (\<lambda>sessionsByTask entry. pushEntry entry sessionsByTask) [] missedSessions))"

text \<open>\<^verbatim>\<open>plannedTasks.splice(findIndex(...), 1)\<close>: the first session with the task id and
  session number is removed, if there is one.\<close>

fun removeFirst :: "(StudySession \<Rightarrow> bool) \<Rightarrow> StudySession list \<Rightarrow> StudySession list" where
  "removeFirst P [] = []"
| "removeFirst P (s # ss) = (if P s then ss else s # removeFirst P ss)"

record MoveState =
  mv_store :: store
  mv_updatedPlans :: "ref list"
  mv_movedSessions :: "StudySession list"
  mv_failedSessions :: "StudySession list"

definition movedCopy :: "StudySession \<Rightarrow> day \<Rightarrow> timestr \<Rightarrow> StudySession" where
  "movedCopy session planDate targetTime =
    session\<lparr>originalTime := Some (startTime session), originalDate := Some planDate,
      status := Some Scheduled, startTime := targetTime,
      endTime := minutesToTime
        (timeMinutes targetTime + \<lfloor>allocatedHours session * 60 + 1 / 2\<rfloor>)\<rparr>"

definition moveOne ::
  "clock \<Rightarrow> UserSettings \<Rightarrow> FixedCommitment list \<Rightarrow> MoveState \<Rightarrow> MissedEntry
     \<Rightarrow> error + MoveState" where
  "moveOne clk settings fixedCommitments st entry =
    (let session = ms_session entry; sessionDuration = allocatedHours session in
     case tryMoveSession clk settings fixedCommitments (mv_store st) (mv_updatedPlans st)
            session sessionDuration of
       Inl e \<Rightarrow> Inl e
     | Inr None \<Rightarrow> Inr (st\<lparr>mv_failedSessions := mv_failedSessions st @ [session]\<rparr>)
     | Inr (Some (targetDate, targetTime)) \<Rightarrow>
        (let newSession = movedCopy session (ms_planDate entry) targetTime;
             (h1, plans1, target) =
               (case find (\<lambda>r. date (mv_store st ! r) = targetDate) (mv_updatedPlans st) of
                  Some r \<Rightarrow> (mv_store st, mv_updatedPlans st, r)
                | None \<Rightarrow>
                    (mv_store st @
                       [\<lparr>plan_id = targetDate, date = targetDate, plannedTasks = [],
                         totalStudyHours = 0,
                         availableHours = dailyAvailableHours settings,
                         isOverloaded = Some False\<rparr>],
                     mv_updatedPlans st @ [length (mv_store st)],
                     length (mv_store st)));
             h2 = h1[target := (h1 ! target)
                    \<lparr>plannedTasks := plannedTasks (h1 ! target) @ [newSession],
                     totalStudyHours :=
                       roundMinutes (totalStudyHours (h1 ! target) + sessionDuration)\<rparr>];
             h3 = (if ms_planIndex entry < length plans1
                   then (let original = plans1 ! ms_planIndex entry in
                         h2[original := (h2 ! original)
                           \<lparr>plannedTasks :=
                              removeFirst (\<lambda>s. taskId s = taskId session
                                               \<and> sessionNumber s = sessionNumber session)
                                (plannedTasks (h2 ! original))\<rparr>])
                   else h2)
         in Inr (st\<lparr>mv_store := h3, mv_updatedPlans := plans1,
                   mv_movedSessions := mv_movedSessions st @ [newSession]\<rparr>)))"

fun moveAll ::
  "clock \<Rightarrow> UserSettings \<Rightarrow> FixedCommitment list \<Rightarrow> MoveState \<Rightarrow> MissedEntry list
     \<Rightarrow> error + MoveState" where
  "moveAll clk settings fixedCommitments st [] = Inr st"
| "moveAll clk settings fixedCommitments st (entry # rest) =
    (case moveOne clk settings fixedCommitments st entry of
       Inl e \<Rightarrow> Inl e
     | Inr st' \<Rightarrow> moveAll clk settings fixedCommitments st' rest)"

definition combineInStore :: "UserSettings \<Rightarrow> store \<Rightarrow> ref list \<Rightarrow> store" where
  "combineInStore settings h updatedPlans =
     foldl (\<lambda>h' r. h'[r := combinePlanWithValidation settings (h' ! r)]) h updatedPlans"

definition isOrphaned ::
  "(string \<times> nat option \<times> day option) list \<Rightarrow> StudyPlan \<Rightarrow> StudySession \<Rightarrow> bool" where
  "isOrphaned successfullyMovedSessions plan session =
    (truthyTime (originalTime session) \<and> truthyDate (originalDate session)
     \<and> status session = Some Scheduled
     \<and> Some (date plan) = originalDate session
     \<and> (taskId session, sessionNumber session, originalDate session)
           \<in> set successfullyMovedSessions)"

definition cleanupOrphanedSessions :: "StudySession list \<Rightarrow> store \<Rightarrow> ref list \<Rightarrow> store" where
  "cleanupOrphanedSessions movedSessions h updatedPlans =
    (let successfullyMovedSessions =
           map (\<lambda>s. (taskId s, sessionNumber s, originalDate s)) movedSessions
     in foldl (\<lambda>h' r. h'[r := (h' ! r)
                 \<lparr>plannedTasks :=
                    filter (\<lambda>session. \<not> isOrphaned successfullyMovedSessions (h' ! r) session)
                      (plannedTasks (h' ! r))\<rparr>]) h updatedPlans)"

record MoveResult =
  r_store :: store
  updatedPlans :: "ref list"
  movedSessions :: "StudySession list"
  failedSessions :: "StudySession list"

definition moveMissedSessions ::
  "clock \<Rightarrow> store \<Rightarrow> ref list \<Rightarrow> UserSettings \<Rightarrow> FixedCommitment list \<Rightarrow> Task list
     \<Rightarrow> error + MoveResult" where
  "moveMissedSessions clk h studyPlans settings fixedCommitments tasks =
    (let missedSessions = sortByPriority (collectMissed clk tasks (planValues h studyPlans)) in
     case moveAll clk settings fixedCommitments
            \<lparr>mv_store = h, mv_updatedPlans = studyPlans, mv_movedSessions = [],
             mv_failedSessions = []\<rparr>
            (processingOrder missedSessions) of
       Inl e \<Rightarrow> Inl e
     | Inr st \<Rightarrow>
        (let h1 = combineInStore settings (mv_store st) (mv_updatedPlans st);
             h2 = cleanupOrphanedSessions (mv_movedSessions st) h1 (mv_updatedPlans st);
             hasConflicts =
               validateStudyPlanConflicts clk (planValues h2 (mv_updatedPlans st)) settings
                 fixedCommitments
         in if hasConflicts
            then Inr \<lparr>r_store = h2, updatedPlans = studyPlans, movedSessions = [],
                       failedSessions = map ms_session missedSessions\<rparr>
            else Inr \<lparr>r_store = h2, updatedPlans = mv_updatedPlans st,
                       movedSessions = mv_movedSessions st,
                       failedSessions = mv_failedSessions st\<rparr>))"

section \<open>Pre-flight gate and redistribution with feedback\<close>




















section \<open>Concrete inputs used below\<close>

text \<open>A session of task \<open>t1\<close>, 09:00 to 10:00, one hour, as the generator creates it.\<close>

definition plainSession :: StudySession where
  "plainSession =
    \<lparr>taskId = ''t1'', scheduledTime = (19999, HM 9 0), startTime = HM 9 0, endTime = HM 10 0,
     allocatedHours = 1, sessionNumber = Some 1, isFlexible = Some True, isManualOverride = None,
     done_flag = None, status = Some Scheduled, actualHours = None, completedAt = None,
     originalTime = None, originalDate = None, rescheduledAt = None\<rparr>"

text \<open>The same session after a redistribution that moved it from day 19997, 08:00.\<close>

definition movedSession :: StudySession where
  "movedSession = plainSession\<lparr>originalTime := Some (HM 8 0), originalDate := Some 19997\<rparr>"

text \<open>A weekly class 09:00 to 10:00 whose occurrence on day 20000 was moved to 13:00 to 14:00.\<close>

definition movedClass :: FixedCommitment where
  "movedClass =
    \<lparr>c_id = ''c1'', c_title = ''class'', c_startTime = HM 9 0, c_endTime = HM 10 0,
     recurring = True, daysOfWeek = [getDay 20000], specificDates = None,
     deletedOccurrences = None,
     modifiedOccurrences = [20000 \<mapsto> \<lparr>m_startTime = Some (HM 13 0), m_endTime = Some (HM 14 0),
        m_title = None, m_type = None\<rparr>],
     c_type = Class\<rparr>"

text \<open>An afternoon appointment 14:00 to 15:00, outside a study window of 09:00 to 12:00.\<close>

definition lateAppointment :: FixedCommitment where
  "lateAppointment =
    \<lparr>c_id = ''c2'', c_title = ''appointment'', c_startTime = HM 14 0, c_endTime = HM 15 0,
     recurring = True, daysOfWeek = [getDay 20000], specificDates = None,
     deletedOccurrences = None, modifiedOccurrences = Map.empty, c_type = Appointment\<rparr>"

text \<open>Settings with eight hours a day, every day a work day, sessions of at least 15 minutes
  and a study window from 06:00 to 23:00; a six-hour task due today; the clock at 10:00.\<close>

definition evenSettings :: UserSettings where
  "evenSettings =
    \<lparr>dailyAvailableHours = 8, workDays = [0, 1, 2, 3, 4, 5, 6], bufferDays = 0,
     minSessionLength = 15, bufferTimeBetweenSessions = 0, studyWindowStartHour = 6,
     studyWindowEndHour = 23, studyPlanMode = Some Even\<rparr>"

definition eisenhowerSettings :: UserSettings where
  "eisenhowerSettings = evenSettings\<lparr>studyPlanMode := Some Eisenhower\<rparr>"

definition essayTask :: Task where
  "essayTask =
    \<lparr>task_id = ''t1'', title = ''essay'', deadline = 20000, importance = True,
     estimatedHours = 6, task_status = TaskPending\<rparr>"

definition exampleClock :: clock where
  "exampleClock = \<lparr>today = 20000, nowMin = 600\<rparr>"

text \<open>
  A plan set as eisenhower mode leaves it, seen on day 20000 at 10:00: yesterday one hour of
  reading from 09:00 was missed; today holds one five-hour session of the project, 06:00 to
  11:00. The quiz is due tomorrow.
\<close>

definition readingTask :: Task where
  "readingTask =
    \<lparr>task_id = ''t1'', title = ''reading'', deadline = 20005, importance = False,
     estimatedHours = 1, task_status = TaskPending\<rparr>"

definition projectTask :: Task where
  "projectTask =
    \<lparr>task_id = ''t2'', title = ''project'', deadline = 20005, importance = True,
     estimatedHours = 5, task_status = TaskPending\<rparr>"


definition missedReading :: StudySession where
  "missedReading = newSession ''t1'' 19999 (HM 9 0) (HM 10 0) 1 1"

definition longProject :: StudySession where
  "longProject = newSession ''t2'' 20000 (HM 6 0) (HM 11 0) 5 1"

definition yesterdayPlan :: StudyPlan where
  "yesterdayPlan =
    \<lparr>plan_id = 19999, date = 19999, plannedTasks = [missedReading], totalStudyHours = 1,
     availableHours = 8, isOverloaded = None\<rparr>"

definition todayPlan :: StudyPlan where
  "todayPlan =
    \<lparr>plan_id = 20000, date = 20000, plannedTasks = [longProject], totalStudyHours = 5,
     availableHours = 8, isOverloaded = None\<rparr>"




text \<open>
  Sessions of at least half an hour; a task of seven hours and three quarters and a task of
  two hours, both due today.
\<close>

definition halfHourSettings :: UserSettings where
  "halfHourSettings = evenSettings\<lparr>minSessionLength := 30\<rparr>"

definition longTask :: Task where
  "longTask =
    \<lparr>task_id = ''t1'', title = ''long'', deadline = 20000, importance = True,
     estimatedHours = 31 / 4, task_status = TaskPending\<rparr>"

definition shortTask :: Task where
  "shortTask =
    \<lparr>task_id = ''t2'', title = ''short'', deadline = 20000, importance = False,
     estimatedHours = 2, task_status = TaskPending\<rparr>"

section \<open>Auxiliary notions for stating and proving properties\<close>

text \<open>The distinct elements of a list, each at its first occurrence.\<close>

definition firstKeys :: "'a list \<Rightarrow> 'a list" where
  "firstKeys ks = rev (remdups (rev ks))"

text \<open>The non-skipped part of a plan after the plain and after the validated pass.\<close>

definition combinedSessionsOf :: "StudySession list \<Rightarrow> StudySession list" where
  "combinedSessionsOf sessions = map (\<lambda>(k, ss). combineGroup ss) (groupByTask sessions)"

definition combinedSessionsV :: "UserSettings \<Rightarrow> StudySession list \<Rightarrow> StudySession list" where
  "combinedSessionsV st sessions =
     concat (map (\<lambda>(k, ss). combineGroupWithValidation st ss) (groupByTask sessions))"

text \<open>Hours allocated to a task by the non-skipped sessions of a list.\<close>

definition taskHours :: "string \<Rightarrow> StudySession list \<Rightarrow> real" where
  "taskHours k sessions =
     sum_list (map allocatedHours (filter (\<lambda>s. taskId s = k \<and> status s \<noteq> Some Skipped) sessions))"


text \<open>The hours a session contributes to the progress metric, whole minutes, and a plan
  whose \<open>totalStudyHours\<close> is the whole-minute sum of all its sessions.\<close>

definition doneHours :: "StudySession \<Rightarrow> real" where
  "doneHours s = (if done_flag s = Some True \<or> status s = Some Skipped then allocatedHours s else 0)"

definition wholeMinutes :: "real \<Rightarrow> bool" where
  "wholeMinutes x = (roundMinutes x = x)"

definition consistentTotal :: "StudyPlan \<Rightarrow> bool" where
  "consistentTotal p = (totalStudyHours p = sumHours (plannedTasks p) \<and> wholeMinutes (totalStudyHours p))"

text \<open>What a plan records as total against what its done or skipped sessions sum to.\<close>

definition recordedAndDone :: "StudyPlan \<Rightarrow> real \<times> real" where
  "recordedAndDone p = (totalStudyHours p, calculateTotalStudyHours (plannedTasks p))"








text \<open>The state after a session of the task has been placed in the slot.\<close>

definition placed :: "Task \<Rightarrow> day \<Rightarrow> timestr \<times> timestr \<Rightarrow> dayState \<Rightarrow> dayState" where
  "placed task d slot st =
    (case st of (dayPlan, r, a, sched) \<Rightarrow>
      (let session = newSession (task_id task) d (fst slot) (snd slot)
             (roundMinutes (min (estimatedHours task - sched (task_id task)) a))
             (length (filter (\<lambda>s. taskId s = task_id task) (plannedTasks dayPlan)) + 1)
       in (dayPlan\<lparr>plannedTasks := plannedTasks dayPlan @ [session],
             totalStudyHours := roundMinutes (totalStudyHours dayPlan + allocatedHours session)\<rparr>,
           roundMinutes (r - allocatedHours session),
           roundMinutes (a - allocatedHours session),
           sched(task_id task := roundMinutes (sched (task_id task) + allocatedHours session)))))"




text \<open>
  Invariants of the generator. A day plan is within the day when its sessions have
  non-negative lengths that, together with what remains of the day (read in whole minutes),
  add up to \<open>R\<close>; the state of even mode is within bounds when the plans have different
  dates and each is within its day; a plan has its sessions within \<open>R\<close> when each length
  lies between 0 and \<open>R\<close>.
\<close>

definition withinDay :: "real \<Rightarrow> StudyPlan \<Rightarrow> real \<Rightarrow> bool" where
  "withinDay R p rem =
    ((\<forall>s \<in> set (plannedTasks p). 0 \<le> allocatedHours s)
     \<and> sumHours (plannedTasks p) + roundMinutes rem = R
     \<and> (plannedTasks p \<noteq> [] \<longrightarrow> 0 \<le> roundMinutes rem))"

definition evenInv :: "real \<Rightarrow> evenState \<Rightarrow> bool" where
  "evenInv R st =
    (distinct (map date (fst st)) \<and> (\<forall>p \<in> set (fst st). withinDay R p (snd st (date p))))"

definition sessionsWithin :: "real \<Rightarrow> StudyPlan \<Rightarrow> bool" where
  "sessionsWithin R p = (\<forall>s \<in> set (plannedTasks p). 0 \<le> allocatedHours s \<and> allocatedHours s \<le> R)"

definition dayWithin :: "real \<Rightarrow> dayState \<Rightarrow> bool" where
  "dayWithin R st =
    (case st of (p, r, a, sched) \<Rightarrow> sessionsWithin R p \<and> roundMinutes r \<le> R \<and> roundMinutes a \<le> R)"

section \<open>Properties of the classifier and of the slot finder\<close>

text \<open>
  Claim C3. A session that is not done, not completed and not skipped, that carries both
  \<open>originalTime\<close> and \<open>originalDate\<close>, and whose plan date is before today should be
  classified \<open>scheduled\<close>. The classifier tests the redistribution metadata before it
  looks at the date, so the branch for past dates that would answer \<open>scheduled\<close> is never
  reached: on day 20000 the moved session planned for day 19999 is \<open>rescheduled\<close>.
\<close>

theorem checkSessionStatus_past_moved:
  "checkSessionStatus \<lparr>today = 20000, nowMin = 600\<rparr> movedSession 19999 = Rescheduled"
  by (simp add: checkSessionStatus_def movedSession_def plainSession_def)

text \<open>The same for every such session and every plan date.\<close>

lemma checkSessionStatus_moved_general:
  assumes "done_flag session \<noteq> Some True" "status session \<noteq> Some Completed"
    "status session \<noteq> Some Skipped"
    "truthyTime (originalTime session)" "truthyDate (originalDate session)"
  shows "checkSessionStatus clk session planDate = Rescheduled"
  using assms by (simp add: checkSessionStatus_def)

text \<open>
  Claim C4. A slot returned by \<open>findNextAvailableTimeSlot\<close> should lie within the study
  window. The test against the end of the window is made only after the last busy interval;
  a gap found before a busy interval is returned without it. With a window of 09:00 to 12:00
  and an appointment at 14:00, a request for four hours is answered 09:00 to 13:00.
\<close>

theorem findNextAvailableTimeSlot_leaves_window:
  "findNextAvailableTimeSlot 4 [] [lateAppointment] 9 12 0 (Some 20000) = Some (HM 9 0, HM 13 0)"
  by (simp add: findNextAvailableTimeSlot_def findSlotMinutes_def busyIntervals_def
      activeCommitments_def commitmentInterval_def lateAppointment_def minutesToTime_def)

text \<open>
  Claim C7. When the override of an occurrence gives both a start and an end time, the busy
  interval of that date should be the overridden one. The slot finder reads the end time of
  the override only when the override has no start time: for the class moved to 13:00 to
  14:00 the busy interval runs from minute 780 (13:00) to minute 600 (10:00, the base end),
  and the hour from 13:00 to 14:00 is offered as free.
\<close>

theorem busyIntervals_override_ignores_end:
  "busyIntervals [] [movedClass] (Some 20000) = [(780, 600)]
   \<and> findNextAvailableTimeSlot 1 [] [movedClass] 13 17 0 (Some 20000) = Some (HM 13 0, HM 14 0)"
  by (simp add: findNextAvailableTimeSlot_def findSlotMinutes_def busyIntervals_def
      activeCommitments_def commitmentInterval_def movedClass_def minutesToTime_def)

section \<open>Properties of session combination\<close>

lemma firstKeys_snoc:
  "firstKeys (ks @ [k]) = (if k \<in> set ks then firstKeys ks else firstKeys ks @ [k])"
  by (simp add: firstKeys_def)

lemma set_firstKeys [simp]: "set (firstKeys ks) = set ks"
  by (simp add: firstKeys_def)

lemma distinct_firstKeys [simp]: "distinct (firstKeys ks)"
  by (simp add: firstKeys_def)

lemma firstKeys_distinct: "distinct ks \<Longrightarrow> firstKeys ks = ks"
  by (simp add: firstKeys_def distinct_remdups_id)

lemma firstKeys_block:
  "k \<notin> set ks \<Longrightarrow> n > 0 \<Longrightarrow> firstKeys (ks @ replicate n k) = firstKeys ks @ [k]"
proof (induction n)
  case 0 then show ?case by simp
next
  case (Suc n)
  have "ks @ replicate (Suc n) k = (ks @ replicate n k) @ [k]"
    by (simp add: replicate_append_same)
  then show ?case using Suc by (cases "n = 0") (simp_all only: firstKeys_snoc, auto simp: firstKeys_snoc)
qed

lemma groupByTask_snoc: "groupByTask (xs @ [s]) = pushSession s (groupByTask xs)"
  by (simp add: groupByTask_def)

lemma groupByTask_char:
  "groupByTask xs = map (\<lambda>k. (k, filter (\<lambda>s. taskId s = k) xs)) (firstKeys (map taskId xs))"
proof (induction xs rule: rev_induct)
  case Nil
  show ?case by (simp add: groupByTask_def firstKeys_def)
next
  case (snoc s xs)
  have keys: "fst ` set (groupByTask xs) = taskId ` set xs"
    by (simp add: snoc.IH image_image)
  have push: "groupByTask (xs @ [s]) =
      (if taskId s \<in> taskId ` set xs
       then map (\<lambda>(k, sessions). if k = taskId s then (k, sessions @ [s]) else (k, sessions))
              (groupByTask xs)
       else groupByTask xs @ [(taskId s, [s])])"
    by (simp only: groupByTask_snoc pushSession_def keys)
  show ?case
  proof (cases "taskId s \<in> taskId ` set xs")
    case True
    then show ?thesis
      unfolding push by (simp add: firstKeys_snoc snoc.IH comp_def)
  next
    case False
    then have "filter (\<lambda>x. taskId x = taskId s) xs = []"
      by (auto simp: filter_empty_conv image_iff)
    with False show ?thesis
      unfolding push by (auto simp add: firstKeys_snoc snoc.IH)
  qed
qed

lemma filter_key_distinct:
  "distinct (map f ys) \<Longrightarrow> c \<in> set ys \<Longrightarrow> filter (\<lambda>s. f s = f c) ys = [c]"
proof (induction ys)
  case Nil then show ?case by simp
next
  case (Cons y ys)
  show ?case
  proof (cases "y = c")
    case True
    with Cons.prems have "filter (\<lambda>s. f s = f c) ys = []"
      by (auto simp: filter_empty_conv image_iff)
    with True show ?thesis by simp
  next
    case False
    with Cons show ?thesis by auto
  qed
qed

lemma groupByTask_distinct:
  assumes "distinct (map taskId ys)"
  shows "groupByTask ys = map (\<lambda>c. (taskId c, [c])) ys"
proof -
  have "map (\<lambda>c. (taskId c, filter (\<lambda>s. taskId s = taskId c) ys)) ys = map (\<lambda>c. (taskId c, [c])) ys"
    using assms by (intro map_cong refl) (simp add: filter_key_distinct)
  then show ?thesis
    using assms by (simp add: groupByTask_char firstKeys_distinct comp_def)
qed

lemma sumHours_sum_list: "sumHours ss = sum_list (map allocatedHours ss)"
proof -
  have "foldl (\<lambda>sum session. sum + allocatedHours session) a ss = a + sum_list (map allocatedHours ss)" for a
    by (induction ss arbitrary: a) simp_all
  then show ?thesis by (simp add: sumHours_def)
qed

lemma sortByStartTime_props [simp]:
  "set (sortByStartTime ss) = set ss" "length (sortByStartTime ss) = length ss"
  "mset (sortByStartTime ss) = mset ss"
  by (simp_all add: sortByStartTime_def)

lemma sumHours_sort [simp]: "sumHours (sortByStartTime ss) = sumHours ss"
proof -
  have "mset (map allocatedHours (sortByStartTime ss)) = mset (map allocatedHours ss)"
    by simp
  then show ?thesis
    unfolding sumHours_sum_list by (metis sum_mset_sum_list)
qed

lemma sortByStartTime_idem [simp]: "sortByStartTime (sortByStartTime ss) = sortByStartTime ss"
  by (simp add: sortByStartTime_def sort_key_id_if_sorted)

lemma combineGroup_origin:
  assumes "ss \<noteq> []"
  shows "\<exists>x \<in> set ss. taskId (combineGroup ss) = taskId x \<and> status (combineGroup ss) = status x"
proof (cases "length ss > 1")
  case True
  then have "sortByStartTime ss \<noteq> []" by (metis assms length_0_conv sortByStartTime_props(2))
  then have "hd (sortByStartTime ss) \<in> set ss" by (metis hd_in_set sortByStartTime_props(1))
  with True show ?thesis by (auto simp: combineGroup_def combinedSession_def Let_def)
next
  case False
  with assms show ?thesis by (auto simp: combineGroup_def)
qed

lemma sumHours_single [simp]: "sumHours [a] = allocatedHours a"
  by (simp add: sumHours_def)

lemma combineGroup_hours: "ss \<noteq> [] \<Longrightarrow> allocatedHours (combineGroup ss) = sumHours ss"
proof (cases "length ss > 1")
  case True
  then show ?thesis by (simp add: combineGroup_def combinedSession_def Let_def)
next
  case False
  assume "ss \<noteq> []"
  with False obtain a where "ss = [a]" by (cases ss) auto
  then show ?thesis by (simp add: combineGroup_def)
qed

lemma combinedSessionsOf_char:
  "combinedSessionsOf N =
     map (\<lambda>k. combineGroup (filter (\<lambda>s. taskId s = k) N)) (firstKeys (map taskId N))"
  by (simp add: combinedSessionsOf_def groupByTask_char comp_def)

lemma group_nonempty: "k \<in> taskId ` set N \<Longrightarrow> filter (\<lambda>s. taskId s = k) N \<noteq> []"
  by (auto simp: filter_empty_conv)

lemma combinedSessionsOf_taskId:
  "map taskId (combinedSessionsOf N) = firstKeys (map taskId N)"
proof -
  have "taskId (combineGroup (filter (\<lambda>s. taskId s = k) N)) = k" if "k \<in> taskId ` set N" for k
    using combineGroup_origin [OF group_nonempty [OF that]] by auto
  then have "map (\<lambda>k. taskId (combineGroup (filter (\<lambda>s. taskId s = k) N))) (firstKeys (map taskId N))
      = map (\<lambda>k. k) (firstKeys (map taskId N))"
    by (intro map_cong refl) simp
  then show ?thesis by (simp add: combinedSessionsOf_char comp_def)
qed

lemma combinedSessionsOf_status:
  assumes "c \<in> set (combinedSessionsOf N)"
  shows "\<exists>x \<in> set N. status c = status x"
proof -
  from assms obtain k where k: "k \<in> taskId ` set N"
    and c: "c = combineGroup (filter (\<lambda>s. taskId s = k) N)"
    by (auto simp: combinedSessionsOf_char)
  from combineGroup_origin [OF group_nonempty [OF k]] c show ?thesis by auto
qed

lemma combineGroup_single [simp]: "combineGroup [c] = c"
  by (simp add: combineGroup_def)

lemma combinedSessionsOf_idem:
  "combinedSessionsOf (combinedSessionsOf N) = combinedSessionsOf N"
proof -
  have "distinct (map taskId (combinedSessionsOf N))"
    by (simp add: combinedSessionsOf_taskId)
  then have "groupByTask (combinedSessionsOf N) = map (\<lambda>c. (taskId c, [c])) (combinedSessionsOf N)"
    by (rule groupByTask_distinct)
  then show ?thesis
    by (simp add: combinedSessionsOf_def [of "combinedSessionsOf N"] comp_def)
qed

lemma plannedTasks_combinePlan:
  "plannedTasks (combinePlan p) =
     combinedSessionsOf (filter (\<lambda>s. status s \<noteq> Some Skipped) (plannedTasks p))
     @ filter (\<lambda>s. status s = Some Skipped) (plannedTasks p)"
  by (simp add: combinePlan_def combinedSessionsOf_def Let_def)

lemma filter_nonskipped_combined:
  "filter (\<lambda>s. status s \<noteq> Some Skipped)
     (combinedSessionsOf (filter (\<lambda>s. status s \<noteq> Some Skipped) xs)) =
   combinedSessionsOf (filter (\<lambda>s. status s \<noteq> Some Skipped) xs)"
  using combinedSessionsOf_status [of _ "filter (\<lambda>s. status s \<noteq> Some Skipped) xs"]
  by (fastforce simp: filter_id_conv)

lemma filter_skipped_combined:
  "filter (\<lambda>s. status s = Some Skipped)
     (combinedSessionsOf (filter (\<lambda>s. status s \<noteq> Some Skipped) xs)) = []"
  using combinedSessionsOf_status [of _ "filter (\<lambda>s. status s \<noteq> Some Skipped) xs"]
  by (fastforce simp: filter_empty_conv)

lemma plannedTasks_combinePlan_idem:
  "plannedTasks (combinePlan (combinePlan p)) = plannedTasks (combinePlan p)"
proof -
  let ?C = "combinedSessionsOf (filter (\<lambda>s. status s \<noteq> Some Skipped) (plannedTasks p))"
  let ?S = "filter (\<lambda>s. status s = Some Skipped) (plannedTasks p)"
  have 1: "filter (\<lambda>s. status s \<noteq> Some Skipped) (?C @ ?S) = ?C"
    using filter_nonskipped_combined [of "plannedTasks p"] by simp
  have 2: "filter (\<lambda>s. status s = Some Skipped) (?C @ ?S) = ?S"
    using filter_skipped_combined [of "plannedTasks p"] by simp
  have "plannedTasks (combinePlan (combinePlan p)) =
      combinedSessionsOf (filter (\<lambda>s. status s \<noteq> Some Skipped) (?C @ ?S))
      @ filter (\<lambda>s. status s = Some Skipped) (?C @ ?S)"
    by (simp only: plannedTasks_combinePlan)
  also have "\<dots> = combinedSessionsOf ?C @ ?S"
    by (simp only: 1 2)
  also have "\<dots> = ?C @ ?S"
    by (simp only: combinedSessionsOf_idem)
  finally show ?thesis by (simp only: plannedTasks_combinePlan)
qed

lemma combinePlan_idem: "combinePlan (combinePlan p) = combinePlan p"
proof -
  have "combinePlan q = q\<lparr>plannedTasks := plannedTasks (combinePlan q),
      totalStudyHours := calculateTotalStudyHours (plannedTasks (combinePlan q))\<rparr>" for q
    by (simp add: combinePlan_def Let_def)
  from this [of "combinePlan p"] show ?thesis
    by (simp add: plannedTasks_combinePlan_idem) (simp add: combinePlan_def Let_def)
qed



lemma combinedSessionsV_char:
  "combinedSessionsV st N =
     concat (map (\<lambda>k. combineGroupWithValidation st (filter (\<lambda>s. taskId s = k) N))
       (firstKeys (map taskId N)))"
  by (simp add: combinedSessionsV_def groupByTask_char comp_def)

lemma combinedSession_origin:
  assumes "ss \<noteq> []"
  shows "\<exists>x \<in> set ss. taskId (combinedSession ss) = taskId x \<and> status (combinedSession ss) = status x"
  using assms by (auto simp: combinedSession_def Let_def)

lemma sortByStartTime_Nil [simp]: "sortByStartTime ss = [] \<longleftrightarrow> ss = []"
  by (metis length_0_conv sortByStartTime_props(2))

lemma cgv_nonempty: "ss \<noteq> [] \<Longrightarrow> combineGroupWithValidation st ss \<noteq> []"
  by (simp add: combineGroupWithValidation_def Let_def)

lemma cgv_origin:
  assumes "c \<in> set (combineGroupWithValidation st ss)"
  shows "\<exists>x \<in> set ss. taskId c = taskId x \<and> status c = status x"
proof (cases "length ss > 1")
  case True
  then have ne: "sortByStartTime ss \<noteq> []"
    by auto
  from combinedSession_origin [OF ne] assms True show ?thesis
    by (auto simp: combineGroupWithValidation_def Let_def split: if_splits)
next
  case False
  with assms show ?thesis by (auto simp: combineGroupWithValidation_def)
qed

lemma cgv_idem:
  "combineGroupWithValidation st (combineGroupWithValidation st ss) = combineGroupWithValidation st ss"
proof (cases "length ss > 1")
  case long: True
  let ?sorted = "sortByStartTime ss"
  let ?ok = "sumHours ?sorted \<ge> minSessionLengthHours st \<and> sumHours ?sorted \<le> maxSessionLengthHours st"
  show ?thesis
  proof (cases ?ok)
    case True
    with long have "combineGroupWithValidation st ss = [combinedSession ?sorted]"
      by (simp add: combineGroupWithValidation_def Let_def)
    moreover have "combineGroupWithValidation st [combinedSession ?sorted] = [combinedSession ?sorted]"
      by (simp add: combineGroupWithValidation_def)
    ultimately show ?thesis by simp
  next
    case False
    with long have 1: "combineGroupWithValidation st ss = ?sorted"
      by (auto simp add: combineGroupWithValidation_def Let_def)
    from long have "length ?sorted > 1" by simp
    with False have "combineGroupWithValidation st ?sorted = ?sorted"
      unfolding combineGroupWithValidation_def [of st ?sorted] Let_def sortByStartTime_idem
      by auto
    with 1 show ?thesis by simp
  qed
next
  case False
  then have "combineGroupWithValidation st ss = ss"
    by (simp add: combineGroupWithValidation_def)
  then show ?thesis by simp
qed

lemma groupByTask_blocks:
  assumes "distinct ks"
    and "\<And>k. k \<in> set ks \<Longrightarrow> B k \<noteq> [] \<and> (\<forall>s \<in> set (B k). taskId s = k)"
  shows "firstKeys (map taskId (concat (map B ks))) = ks
       \<and> (\<forall>k \<in> set ks. filter (\<lambda>s. taskId s = k) (concat (map B ks)) = B k)"
  using assms
proof (induction ks rule: rev_induct)
  case Nil
  then show ?case by (simp add: firstKeys_def)
next
  case (snoc k ks)
  let ?X = "concat (map B ks)"
  from snoc.prems have d: "distinct ks" and kn: "k \<notin> set ks" by auto
  from snoc.prems(2) have Bk: "B k \<noteq> []" "\<forall>s \<in> set (B k). taskId s = k" by auto
  have IH: "firstKeys (map taskId ?X) = ks"
    "\<forall>k' \<in> set ks. filter (\<lambda>s. taskId s = k') ?X = B k'"
    using snoc.IH [OF d] snoc.prems(2) by auto
  have keysX: "set (map taskId ?X) = set ks"
    using IH(1) by (metis set_firstKeys)
  have rep: "map taskId (B k) = replicate (length (B k)) k"
    using Bk(2) by (simp add: map_replicate_const [symmetric] cong: map_cong)
  have 1: "firstKeys (map taskId (concat (map B (ks @ [k])))) = ks @ [k]"
    using firstKeys_block [of k "map taskId ?X" "length (B k)"] kn keysX Bk(1) IH(1)
    by (simp add: rep)
  have 2: "filter (\<lambda>s. taskId s = k') (concat (map B (ks @ [k]))) = B k'" if "k' \<in> set ks" for k'
  proof -
    from that kn have "k' \<noteq> k" by auto
    with Bk(2) have "filter (\<lambda>s. taskId s = k') (B k) = []"
      by (auto simp: filter_empty_conv)
    with IH(2) that show ?thesis by simp
  qed
  have "filter (\<lambda>s. taskId s = k) ?X = []"
    using kn keysX by (auto simp: filter_empty_conv)
  moreover have "filter (\<lambda>s. taskId s = k) (B k) = B k"
    using Bk(2) by (simp add: filter_id_conv)
  ultimately have 3: "filter (\<lambda>s. taskId s = k) (concat (map B (ks @ [k]))) = B k"
    by simp
  from 1 2 3 show ?case by auto
qed

lemma combinedSessionsV_idem:
  "combinedSessionsV st (combinedSessionsV st N) = combinedSessionsV st N"
proof -
  let ?ks = "firstKeys (map taskId N)"
  let ?B = "\<lambda>k. combineGroupWithValidation st (filter (\<lambda>s. taskId s = k) N)"
  have blk: "?B k \<noteq> [] \<and> (\<forall>s \<in> set (?B k). taskId s = k)" if "k \<in> set ?ks" for k
  proof -
    from that have "k \<in> taskId ` set N" by simp
    then have "filter (\<lambda>s. taskId s = k) N \<noteq> []" by (rule group_nonempty)
    then have "?B k \<noteq> []" by (rule cgv_nonempty)
    moreover have "taskId s = k" if "s \<in> set (?B k)" for s
      using cgv_origin [OF that] by auto
    ultimately show ?thesis by blast
  qed
  have R: "combinedSessionsV st N = concat (map ?B ?ks)"
    by (rule combinedSessionsV_char)
  from groupByTask_blocks [of ?ks ?B, OF distinct_firstKeys blk]
  have k1: "firstKeys (map taskId (concat (map ?B ?ks))) = ?ks"
    and k2: "\<forall>k \<in> set ?ks. filter (\<lambda>s. taskId s = k) (concat (map ?B ?ks)) = ?B k"
    by auto
  have step: "map (\<lambda>k. combineGroupWithValidation st (filter (\<lambda>s. taskId s = k) (concat (map ?B ?ks)))) ?ks
      = map (\<lambda>k. combineGroupWithValidation st (?B k)) ?ks"
  proof (rule map_cong [OF refl])
    fix k assume "k \<in> set ?ks"
    with k2 have "filter (\<lambda>s. taskId s = k) (concat (map ?B ?ks)) = ?B k"
      by blast
    then show "combineGroupWithValidation st (filter (\<lambda>s. taskId s = k) (concat (map ?B ?ks)))
      = combineGroupWithValidation st (?B k)"
      by (simp only:)
  qed
  have "combinedSessionsV st (concat (map ?B ?ks)) =
      concat (map (\<lambda>k. combineGroupWithValidation st (filter (\<lambda>s. taskId s = k) (concat (map ?B ?ks)))) ?ks)"
    by (simp only: combinedSessionsV_char [of st "concat (map ?B ?ks)"] k1)
  also have "\<dots> = concat (map (\<lambda>k. combineGroupWithValidation st (?B k)) ?ks)"
    by (simp only: step)
  also have "\<dots> = concat (map ?B ?ks)"
    by (simp only: cgv_idem)
  finally show ?thesis by (simp only: R)
qed

lemma combinedSessionsV_status:
  assumes "c \<in> set (combinedSessionsV st N)"
  shows "\<exists>x \<in> set N. status c = status x"
proof -
  from assms obtain k where "c \<in> set (combineGroupWithValidation st (filter (\<lambda>s. taskId s = k) N))"
    by (auto simp: combinedSessionsV_char)
  from cgv_origin [OF this] show ?thesis by auto
qed

lemma filterV_idem:
  "combinedSessionsV st (filter (\<lambda>s. status s \<noteq> Some Skipped)
     (combinedSessionsV st (filter (\<lambda>s. status s \<noteq> Some Skipped) xs)))
   = combinedSessionsV st (filter (\<lambda>s. status s \<noteq> Some Skipped) xs)"
proof -
  let ?R = "combinedSessionsV st (filter (\<lambda>s. status s \<noteq> Some Skipped) xs)"
  have "status c \<noteq> Some Skipped" if "c \<in> set ?R" for c
    using combinedSessionsV_status [OF that] by auto
  then have "filter (\<lambda>s. status s \<noteq> Some Skipped) ?R = ?R"
    unfolding filter_id_conv by blast
  then show ?thesis
    by (simp only: combinedSessionsV_idem)
qed

lemma combinePlanV_unfold:
  "combinePlanWithValidation st p =
     p\<lparr>plannedTasks := combinedSessionsV st (filter (\<lambda>s. status s \<noteq> Some Skipped) (plannedTasks p)),
       totalStudyHours := sumHours (combinedSessionsV st (filter (\<lambda>s. status s \<noteq> Some Skipped) (plannedTasks p)))\<rparr>"
  by (simp add: combinePlanWithValidation_def combinedSessionsV_def Let_def)

lemma combinePlanV_idem:
  "combinePlanWithValidation st (combinePlanWithValidation st p) = combinePlanWithValidation st p"
  by (simp add: combinePlanV_unfold filterV_idem)

text \<open>
  Claim C9. The session-combination pass is idempotent: applying
  \<open>combineSessionsOnSameDay\<close> twice to a plan set gives exactly the plan set that one
  application gives (sessions, their fields and \<open>totalStudyHours\<close>), and the same holds
  for the validated combination pass that redistribution uses.
\<close>

theorem combine_idempotent:
  "combineSessionsOnSameDay (combineSessionsOnSameDay studyPlans) = combineSessionsOnSameDay studyPlans
   \<and> combineSessionsOnSameDayWithValidation (combineSessionsOnSameDayWithValidation studyPlans settings) settings
       = combineSessionsOnSameDayWithValidation studyPlans settings"
  by (simp add: combineSessionsOnSameDay_def combineSessionsOnSameDayWithValidation_def
      combinePlan_idem combinePlanV_idem)







section \<open>Properties of the plan generator\<close>

subsection \<open>Session sizing\<close>

lemma optimizeLoop_Suc:
  "optimizeLoop minLen maxLen (Suc k) rem acc =
    (if rem > 0 then
       (if min (rem / real (Suc k)) (min maxLen rem) \<ge> minLen
        then optimizeLoop minLen maxLen k (rem - min (rem / real (Suc k)) (min maxLen rem))
               (acc @ [min (rem / real (Suc k)) (min maxLen rem)])
        else optimizeLoop minLen maxLen k rem acc)
     else (acc, rem))"
  by (simp only: optimizeLoop.simps Let_def)

lemma optimizeLoop_bounds:
  "\<forall>x \<in> set acc. minLen \<le> x \<and> x \<le> maxLen \<Longrightarrow>
   \<forall>x \<in> set (fst (optimizeLoop minLen maxLen k rem acc)). minLen \<le> x \<and> x \<le> maxLen"
proof (induction k arbitrary: rem acc)
  case 0
  then show ?case by simp
next
  case (Suc k)
  let ?len = "min (rem / real (Suc k)) (min maxLen rem)"
  consider (push) "rem > 0" "?len \<ge> minLen" | (skip) "rem > 0" "\<not> ?len \<ge> minLen" | (stop) "\<not> rem > 0"
    by blast
  then show ?case
  proof cases
    case push
    have "?len \<le> maxLen" by simp
    with push Suc.prems have "\<forall>x \<in> set (acc @ [?len]). minLen \<le> x \<and> x \<le> maxLen" by auto
    then have "\<forall>x \<in> set (fst (optimizeLoop minLen maxLen k (rem - ?len) (acc @ [?len]))). minLen \<le> x \<and> x \<le> maxLen"
      by (rule Suc.IH)
    with push show ?thesis by (simp only: optimizeLoop_Suc if_True)
  next
    case skip
    have "\<forall>x \<in> set (fst (optimizeLoop minLen maxLen k rem acc)). minLen \<le> x \<and> x \<le> maxLen"
      using Suc.prems by (rule Suc.IH)
    with skip show ?thesis by (simp only: optimizeLoop_Suc if_True if_False)
  next
    case stop
    with Suc.prems show ?thesis by (simp only: optimizeLoop_Suc if_False fst_conv)
  qed
qed

lemma optimizeSessionDistribution_bounds:
  "(\<forall>x \<in> set (optimizeSessionDistribution settings totalHours nDays). minSessionLengthHours settings \<le> x)
   \<and> (\<forall>x \<in> set (tl (optimizeSessionDistribution settings totalHours nDays)). x \<le> maxSessionLengthHours settings)"
proof -
  let ?minLen = "minSessionLengthHours settings"
  let ?maxLen = "maxSessionLengthHours settings"
  let ?n = "min (int nDays) \<lfloor>totalHours / ?minLen\<rfloor>"
  let ?r = "optimizeLoop ?minLen ?maxLen (nat (if ?n = 0 then int nDays else ?n)) totalHours []"
  obtain xs rem where r: "?r = (xs, rem)" by (cases ?r)
  have "\<forall>x \<in> set (fst ?r). ?minLen \<le> x \<and> x \<le> ?maxLen"
    by (rule optimizeLoop_bounds) simp
  with r have b: "\<forall>x \<in> set xs. ?minLen \<le> x \<and> x \<le> ?maxLen" by simp
  have res: "optimizeSessionDistribution settings totalHours nDays =
      (if rem > 0 \<and> xs \<noteq> [] then (hd xs + rem) # tl xs else xs)"
    unfolding optimizeSessionDistribution_def Let_def r by simp
  show ?thesis
  proof (cases "rem > 0 \<and> xs \<noteq> []")
    case True
    then obtain y ys where xs: "xs = y # ys" by (cases xs) auto
    with b True show ?thesis unfolding res by auto
  next
    case False
    have "\<forall>x \<in> set (tl xs). x \<le> ?maxLen"
      using b by (cases xs) auto
    with b False show ?thesis unfolding res by auto
  qed
qed

subsection \<open>The recorded total of a plan\<close>

lemma calc_alt: "calculateTotalStudyHours xs = sum_list (map doneHours xs)"
  by (induction xs) (simp_all add: calculateTotalStudyHours_def sumHours_sum_list doneHours_def)

lemma calc_perm: "mset xs = mset ys \<Longrightarrow> calculateTotalStudyHours xs = calculateTotalStudyHours ys"
proof -
  assume "mset xs = mset ys"
  then have "mset (map doneHours xs) = mset (map doneHours ys)" by simp
  then show ?thesis unfolding calc_alt by (metis sum_mset_sum_list)
qed

lemma assignSlotStep_doneHours:
  "map doneHours (snd (assignSlotStep settings cs d (a, out) s)) = map doneHours out @ [doneHours s]"
  by (simp add: assignSlotStep_def doneHours_def Let_def split: option.split)

lemma assignSlots_doneHours:
  "map doneHours (snd (foldl (assignSlotStep settings cs d) (a, out) xs))
     = map doneHours out @ map doneHours xs"
proof (induction xs arbitrary: a out)
  case Nil
  show ?case by simp
next
  case (Cons x xs)
  obtain a' out' where step: "assignSlotStep settings cs d (a, out) x = (a', out')"
    by (cases "assignSlotStep settings cs d (a, out) x")
  from assignSlotStep_doneHours [of settings cs d a out x] step
  have "map doneHours out' = map doneHours out @ [doneHours x]" by simp
  with Cons.IH [of a' out'] step show ?case by simp
qed

lemma assignTimeSlots_total:
  assumes "totalStudyHours q = calculateTotalStudyHours (plannedTasks q)"
  shows "totalStudyHours (assignTimeSlots settings cs ts q)
       = calculateTotalStudyHours (plannedTasks (assignTimeSlots settings cs ts q))"
proof -
  have "calculateTotalStudyHours (plannedTasks (assignTimeSlots settings cs ts q))
      = sum_list (map doneHours (sortSessionsByTask ts (plannedTasks q)))"
    by (simp add: assignTimeSlots_def calc_alt assignSlots_doneHours)
  also have "\<dots> = calculateTotalStudyHours (sortSessionsByTask ts (plannedTasks q))"
    by (simp add: calc_alt)
  also have "\<dots> = calculateTotalStudyHours (plannedTasks q)"
    by (rule calc_perm) (simp add: sortSessionsByTask_def)
  finally show ?thesis using assms by (simp add: assignTimeSlots_def)
qed

lemma combinePlan_total:
  "totalStudyHours (combinePlan q) = calculateTotalStudyHours (plannedTasks (combinePlan q))"
  by (simp add: combinePlan_def Let_def)

lemma generateEven_shape:
  "(\<exists>X. fst (generateEven clk tasks settings cs ex) = combineSessionsOnSameDay X)
   \<or> (\<exists>X. fst (generateEven clk tasks settings cs ex)
         = map (assignTimeSlots settings cs (sortTasks (pendingTasks tasks))) (combineSessionsOnSameDay X))"
  unfolding generateEven_def Let_def by (simp; blast)

lemma generateEven_total:
  assumes "p \<in> set (fst (generateEven clk tasks settings cs ex))"
  shows "totalStudyHours p = calculateTotalStudyHours (plannedTasks p)"
  using generateEven_shape [of clk tasks settings cs ex] assms
  by (auto simp: combineSessionsOnSameDay_def combinePlan_total assignTimeSlots_total)


lemma roundMinutes_whole [simp]: "roundMinutes (of_int k / 60) = of_int k / 60"
proof -
  have "\<lfloor>(of_int k :: real) + 1 / 2\<rfloor> = k" by linarith
  then show ?thesis by (simp add: roundMinutes_def)
qed

lemma wholeMinutes_iff: "wholeMinutes x \<longleftrightarrow> (\<exists>k::int. x = of_int k / 60)"
proof
  assume "wholeMinutes x"
  then have "x = of_int \<lfloor>x * 60 + 1 / 2\<rfloor> / 60" by (simp add: wholeMinutes_def roundMinutes_def)
  then show "\<exists>k::int. x = of_int k / 60" ..
next
  assume "\<exists>k::int. x = of_int k / 60"
  then obtain k :: int where "x = of_int k / 60" ..
  then show "wholeMinutes x" by (simp only: wholeMinutes_def roundMinutes_whole)
qed

lemma wholeMinutes_round [simp]: "wholeMinutes (roundMinutes x)"
  unfolding wholeMinutes_iff roundMinutes_def by blast

lemma wholeMinutes_add: "wholeMinutes x \<Longrightarrow> wholeMinutes y \<Longrightarrow> wholeMinutes (x + y)"
proof -
  assume "wholeMinutes x" "wholeMinutes y"
  then obtain k l :: int where "x = of_int k / 60" "y = of_int l / 60"
    unfolding wholeMinutes_iff by blast
  then have "x + y = of_int (k + l) / 60" by (simp add: add_divide_distrib)
  then show ?thesis unfolding wholeMinutes_iff by blast
qed


lemma wholeMinutes_0 [simp]: "wholeMinutes 0"
  unfolding wholeMinutes_iff by (rule exI [of _ 0]) simp

lemma sumHours_snoc [simp]: "sumHours (xs @ [s]) = sumHours xs + allocatedHours s"
  by (simp add: sumHours_def)

lemma consistentTotal_push:
  assumes "consistentTotal p" "wholeMinutes (allocatedHours s)"
  shows "consistentTotal (p\<lparr>plannedTasks := plannedTasks p @ [s],
           totalStudyHours := roundMinutes (totalStudyHours p + allocatedHours s)\<rparr>)"
proof -
  from assms have t: "totalStudyHours p = sumHours (plannedTasks p)"
    and w: "wholeMinutes (totalStudyHours p)"
    unfolding consistentTotal_def by blast+
  from w assms(2) have w': "wholeMinutes (totalStudyHours p + allocatedHours s)"
    by (rule wholeMinutes_add)
  then have r: "roundMinutes (totalStudyHours p + allocatedHours s) = totalStudyHours p + allocatedHours s"
    by (simp add: wholeMinutes_def)
  show ?thesis
    unfolding consistentTotal_def by (simp add: r w', simp add: t)
qed

lemma eisenhowerTasks_consistent:
  "consistentTotal (fst st) \<Longrightarrow> consistentTotal (fst (eisenhowerTasks settings cs d ts st))"
proof (induction ts arbitrary: st)
  case Nil
  then show ?case by simp
next
  case (Cons task rest)
  obtain dayPlan r a sched where st: "st = (dayPlan, r, a, sched)" by (cases st)
  from Cons.prems st have cp: "consistentTotal dayPlan" by simp
  have push: "consistentTotal (dayPlan\<lparr>plannedTasks := plannedTasks dayPlan @ [newSession tid d s e (roundMinutes h) n],
           totalStudyHours := roundMinutes (totalStudyHours dayPlan + allocatedHours (newSession tid d s e (roundMinutes h) n))\<rparr>)"
    for tid s e h n
    by (rule consistentTotal_push [OF cp]) (simp add: newSession_def)
  show ?case
    unfolding st eisenhowerTasks.simps Let_def
    by (auto split: option.split intro!: Cons.IH simp: cp push)
qed

lemma find_in_set: "find P xs = Some x \<Longrightarrow> x \<in> set xs"
  by (induction xs) (auto split: if_splits)

lemma set_updatePlan_const: "set (updatePlan d (\<lambda>p. q) ps) \<subseteq> insert q (set ps)"
  by (induction ps) auto

lemma eisenhowerDay_consistent:
  assumes "\<forall>p \<in> set (fst st). consistentTotal p"
  shows "\<forall>p \<in> set (fst (eisenhowerDay settings cs ts st d)). consistentTotal p"
proof -
  obtain plans rem sched where st: "st = (plans, rem, sched)" by (cases st)
  show ?thesis
  proof (cases "find (\<lambda>p. date p = d) plans")
    case None
    with assms st show ?thesis by (simp add: eisenhowerDay_def)
  next
    case (Some dayPlan)
    let ?r = "eisenhowerTasks settings (commitmentsForDay cs d) d
        (filter (\<lambda>task. sched (task_id task) < estimatedHours task \<and> d \<le> bufferedDeadline settings task) ts)
        (dayPlan, rem d, rem d, sched)"
    from Some assms st have "consistentTotal dayPlan" by (auto dest: find_in_set)
    then have c: "consistentTotal (fst ?r)" by (intro eisenhowerTasks_consistent) simp
    obtain dp r a sc where r: "?r = (dp, r, a, sc)" by (cases ?r)
    from c r have "consistentTotal dp" by simp
    moreover have "fst (eisenhowerDay settings cs ts st d) = updatePlan d (\<lambda>p. dp) plans"
      using Some r by (simp add: eisenhowerDay_def st Let_def)
    ultimately show ?thesis
      using assms st set_updatePlan_const [of d dp plans] by auto
  qed
qed

lemma eisenhowerDays_consistent:
  "\<forall>p \<in> set (fst st). consistentTotal p \<Longrightarrow>
   \<forall>p \<in> set (fst (foldl (eisenhowerDay settings cs ts) st ds)). consistentTotal p"
proof (induction ds arbitrary: st)
  case Nil
  then show ?case by simp
next
  case (Cons d ds)
  from Cons.prems have "\<forall>p \<in> set (fst (eisenhowerDay settings cs ts st d)). consistentTotal p"
    by (rule eisenhowerDay_consistent)
  then show ?case using Cons.IH [of "eisenhowerDay settings cs ts st d"] by simp
qed

lemma generateEisenhower_total:
  assumes "p \<in> set (fst (generateEisenhower clk tasks settings cs))"
  shows "totalStudyHours p = sumHours (plannedTasks p)"
proof -
  let ?ts = "sortTasks (pendingTasks tasks)"
  let ?st0 = "(map (emptyPlan settings) (availableDaysOf clk settings ?ts),
      (\<lambda>d. dailyAvailableHours settings), (\<lambda>tid. 0::real))"
  have "\<forall>p \<in> set (fst ?st0). consistentTotal p"
    by (simp add: consistentTotal_def emptyPlan_def sumHours_def)
  then have "\<forall>p \<in> set (fst (foldl (eisenhowerDay settings cs ?ts) ?st0
      (availableDaysOf clk settings ?ts))). consistentTotal p"
    by (rule eisenhowerDays_consistent)
  with assms show ?thesis
    by (simp add: generateEisenhower_def Let_def consistentTotal_def)
qed

lemma combinePlanWithValidation_total:
  "totalStudyHours (combinePlanWithValidation settings q)
     = sumHours (plannedTasks (combinePlanWithValidation settings q))"
  by (simp add: combinePlanWithValidation_def Let_def)

text \<open>
  Claim C5. The recorded total of a plan should be the sum of \<open>allocatedHours\<close> over its
  sessions that are done or skipped, which is what \<open>calculateTotalStudyHours\<close> computes and
  what the combination pass of even mode stores. Eisenhower mode adds every session it
  schedules to \<open>totalStudyHours\<close> and never recomputes it: the six-hour task gives one plan
  whose \<open>totalStudyHours\<close> is 6 although none of its sessions is done or skipped, where
  even mode gives 0 for the same input.
\<close>

theorem totalStudyHours_eisenhower_counterexample:
  "map recordedAndDone
     (fst (generateNewStudyPlan exampleClock [essayTask] eisenhowerSettings [] [])) = [(6, 0)]
   \<and> map recordedAndDone
     (fst (generateNewStudyPlan exampleClock [essayTask] evenSettings [] [])) = [(0, 0)]"
  by code_simp


section \<open>Properties of redistribution\<close>

text \<open>
  Claim C1. When the validation after redistribution finds a conflict, the plan set that is
  returned should be the input plan set, unchanged. The plans are changed in place through a
  copy of the array only, so the array that is returned on rollback holds the changed plans.
  In the example the missed reading session is moved to today 11:00; validation then rejects
  the plan set because of the five-hour session; the result reports no moved session and the
  reading session as failed, yet yesterday's plan has lost the session and today's plan has
  gained its copy.
\<close>

theorem moveMissedSessions_rollback_keeps_changes:
  "moveMissedSessions exampleClock [yesterdayPlan, todayPlan] [0, 1] eisenhowerSettings []
       [readingTask, projectTask]
     = Inr \<lparr>r_store =
              [yesterdayPlan\<lparr>plannedTasks := [], totalStudyHours := 0\<rparr>,
               todayPlan\<lparr>plannedTasks := [longProject, movedCopy missedReading 19999 (HM 11 0)],
                 totalStudyHours := 6\<rparr>],
            updatedPlans = [0, 1], movedSessions = [], failedSessions = [missedReading]\<rparr>
   \<and> validateStudyPlanConflicts exampleClock
        [yesterdayPlan\<lparr>plannedTasks := [], totalStudyHours := 0\<rparr>,
         todayPlan\<lparr>plannedTasks := [longProject, movedCopy missedReading 19999 (HM 11 0)],
           totalStudyHours := 6\<rparr>] eisenhowerSettings []
   \<and> planValues [yesterdayPlan, todayPlan] [0, 1] = [yesterdayPlan, todayPlan]"
  by code_simp






section \<open>Eisenhower mode: the important task first\<close>








declare eisenhowerTasks.simps(2) [simp del]

lemma eisenhowerTasks_stop:
  "a \<le> 0 \<Longrightarrow> eisenhowerTasks settings cs d ts (p, r, a, sched) = (p, r, a, sched)"
  by (cases ts) (simp_all add: eisenhowerTasks.simps(2))

lemma eisenhowerTasks_single:
  "eisenhowerTasks settings cs d [t] (p, r, a, sched) =
    (if a > 0 \<and> estimatedHours t - sched (task_id t) > 0 then
       (case findNextAvailableTimeSlot (min (estimatedHours t - sched (task_id t)) a) (plannedTasks p) cs
               (orDefault (studyWindowStartHour settings) 6)
               (orDefault (studyWindowEndHour settings) 23)
               (bufferTimeBetweenSessions settings) (Some d) of
          None \<Rightarrow> (p, r, a, sched)
        | Some slot \<Rightarrow> placed t d slot (p, r, a, sched))
     else (p, r, a, sched))"
  by (simp add: eisenhowerTasks.simps(2) placed_def Let_def split: option.split)

lemma eisenhowerTasks_Cons:
  "eisenhowerTasks settings cs d (t # rest) st
     = eisenhowerTasks settings cs d rest (eisenhowerTasks settings cs d [t] st)"
proof -
  obtain p r a sched where st: "st = (p, r, a, sched)" by (cases st)
  show ?thesis
  proof (cases "a \<le> 0")
    case True
    then show ?thesis unfolding st by (simp add: eisenhowerTasks_stop)
  next
    case False
    then show ?thesis
      unfolding st by (simp add: eisenhowerTasks.simps(2) Let_def split: option.split)
  qed
qed


lemma taskHours_Nil [simp]: "taskHours k [] = 0"
  by (simp add: taskHours_def)


lemma roundMinutes_mono:
  assumes "x \<le> y"
  shows "roundMinutes x \<le> roundMinutes y"
proof -
  have "\<lfloor>x * 60 + 1 / 2\<rfloor> \<le> \<lfloor>y * 60 + 1 / 2\<rfloor>"
    using assms by (intro floor_mono) simp
  then show ?thesis by (simp add: roundMinutes_def divide_right_mono)
qed




lemma tasksForDay_two:
  "filter P [imp, un] = (if P imp then [imp] else []) @ (if P un then [un] else [])"
  by simp







lemma distinct_addDeadlineDays:
  "distinct days \<Longrightarrow> distinct (foldl (addDeadlineDay settings) days ts)"
  by (induction ts arbitrary: days) (simp_all add: addDeadlineDay_def Let_def)

lemma distinct_loopDays: "distinct (loopDays clk settings ts)"
  by (cases ts) (simp_all add: loopDays_def Let_def)

lemma availableDaysOf_sorted:
  "distinct (availableDaysOf clk settings ts)" "sorted (availableDaysOf clk settings ts)"
  by (simp_all add: availableDaysOf_def distinct_addDeadlineDays distinct_loopDays)







section \<open>Session lengths in the generated plans\<close>

lemma roundMinutes_sub:
  assumes "wholeMinutes x"
  shows "roundMinutes (y - x) = roundMinutes y - x"
proof -
  from assms obtain k :: int where x: "x = of_int k / 60"
    unfolding wholeMinutes_iff by blast
  have "(y - x) * 60 + 1 / 2 = (y * 60 + 1 / 2) - of_int k"
    by (simp add: x algebra_simps)
  then have "\<lfloor>(y - x) * 60 + 1 / 2\<rfloor> = \<lfloor>y * 60 + 1 / 2\<rfloor> - k"
    by (simp only: floor_diff_of_int)
  then show ?thesis
    by (simp add: roundMinutes_def x diff_divide_distrib)
qed

lemma roundMinutes_nonneg: "0 \<le> y \<Longrightarrow> 0 \<le> roundMinutes y"
  by (simp add: roundMinutes_def)

lemma roundMinutes_idem: "roundMinutes (roundMinutes y) = roundMinutes y"
  using wholeMinutes_round [of y] by (simp only: wholeMinutes_def)

lemma member_le_sum:
  fixes f :: "'a \<Rightarrow> real"
  shows "\<forall>x \<in> set xs. 0 \<le> f x \<Longrightarrow> s \<in> set xs \<Longrightarrow> f s \<le> sum_list (map f xs)"
proof (induction xs)
  case Nil
  then show ?case by simp
next
  case (Cons x xs)
  have nn: "0 \<le> sum_list (map f xs)"
    using Cons.prems(1) by (intro sum_list_nonneg) auto
  show ?case
  proof (cases "s = x")
    case True
    with nn show ?thesis by simp
  next
    case False
    with Cons have "f s \<le> sum_list (map f xs)" by simp
    moreover have "0 \<le> f x" using Cons.prems(1) by simp
    ultimately show ?thesis by simp
  qed
qed

lemma sum_list_delta0:
  fixes c :: real
  shows "k0 \<notin> set ks \<Longrightarrow> sum_list (map (\<lambda>k. if k0 = k then c else 0) ks) = 0"
  by (induction ks) auto

lemma sum_list_delta:
  fixes c :: real
  shows "distinct ks \<Longrightarrow> k0 \<in> set ks \<Longrightarrow> sum_list (map (\<lambda>k. if k0 = k then c else 0) ks) = c"
  by (induction ks) (auto simp: sum_list_delta0)

lemma sum_list_by_key:
  fixes f :: "'a \<Rightarrow> real"
  assumes "distinct ks"
  shows "key ` set xs \<subseteq> set ks \<Longrightarrow>
    sum_list (map (\<lambda>k. sum_list (map f (filter (\<lambda>x. key x = k) xs))) ks) = sum_list (map f xs)"
proof (induction xs)
  case Nil
  show ?case by simp
next
  case (Cons x xs)
  have "sum_list (map (\<lambda>k. sum_list (map f (filter (\<lambda>x. key x = k) (x # xs)))) ks)
      = sum_list (map (\<lambda>k. (if key x = k then f x else 0)
            + sum_list (map f (filter (\<lambda>x. key x = k) xs))) ks)"
    by (intro arg_cong [where f = sum_list] map_cong) auto
  also have "\<dots> = sum_list (map (\<lambda>k. if key x = k then f x else 0) ks)
      + sum_list (map (\<lambda>k. sum_list (map f (filter (\<lambda>x. key x = k) xs))) ks)"
    by (rule sum_list_addf)
  also have "sum_list (map (\<lambda>k. if key x = k then f x else 0) ks) = f x"
    using assms Cons.prems by (intro sum_list_delta) auto
  also have "sum_list (map (\<lambda>k. sum_list (map f (filter (\<lambda>x. key x = k) xs))) ks) = sum_list (map f xs)"
    using Cons.prems by (intro Cons.IH) auto
  finally show ?case by simp
qed

lemma sumHours_combinedSessionsOf: "sumHours (combinedSessionsOf N) = sumHours N"
proof -
  let ?ks = "firstKeys (map taskId N)"
  have "map allocatedHours (combinedSessionsOf N)
      = map (\<lambda>k. sum_list (map allocatedHours (filter (\<lambda>s. taskId s = k) N))) ?ks"
    unfolding combinedSessionsOf_char map_map comp_def
  proof (rule map_cong [OF refl])
    fix k assume "k \<in> set ?ks"
    then have "k \<in> taskId ` set N" by simp
    then have "filter (\<lambda>s. taskId s = k) N \<noteq> []" by (rule group_nonempty)
    then show "allocatedHours (combineGroup (filter (\<lambda>s. taskId s = k) N))
        = sum_list (map allocatedHours (filter (\<lambda>s. taskId s = k) N))"
      by (simp add: combineGroup_hours sumHours_sum_list)
  qed
  then have "sumHours (combinedSessionsOf N)
      = sum_list (map (\<lambda>k. sum_list (map allocatedHours (filter (\<lambda>s. taskId s = k) N))) ?ks)"
    by (simp add: sumHours_sum_list)
  also have "\<dots> = sum_list (map allocatedHours N)"
    by (rule sum_list_by_key) simp_all
  finally show ?thesis by (simp add: sumHours_sum_list)
qed

lemma sumHours_append: "sumHours (xs @ ys) = sumHours xs + sumHours ys"
  by (simp add: sumHours_sum_list)

lemma sumHours_split_skipped:
  "sumHours (filter (\<lambda>s. status s \<noteq> Some Skipped) xs) + sumHours (filter (\<lambda>s. status s = Some Skipped) xs)
    = sumHours xs"
  unfolding sumHours_sum_list by (induction xs) simp_all

lemma sumHours_combinePlan: "sumHours (plannedTasks (combinePlan p)) = sumHours (plannedTasks p)"
  by (simp only: plannedTasks_combinePlan sumHours_append sumHours_combinedSessionsOf
      sumHours_split_skipped)

lemma combinedSessionsOf_nonneg:
  assumes "\<forall>s \<in> set N. 0 \<le> allocatedHours s" "c \<in> set (combinedSessionsOf N)"
  shows "0 \<le> allocatedHours c"
proof -
  from assms(2) obtain k where k: "k \<in> taskId ` set N"
    and c: "c = combineGroup (filter (\<lambda>s. taskId s = k) N)"
    by (auto simp: combinedSessionsOf_char)
  from k have "filter (\<lambda>s. taskId s = k) N \<noteq> []" by (rule group_nonempty)
  then have "allocatedHours c = sum_list (map allocatedHours (filter (\<lambda>s. taskId s = k) N))"
    unfolding c by (simp add: combineGroup_hours sumHours_sum_list)
  moreover have "0 \<le> sum_list (map allocatedHours (filter (\<lambda>s. taskId s = k) N))"
    using assms(1) by (intro sum_list_nonneg) auto
  ultimately show ?thesis by simp
qed

lemma date_combinePlan: "date (combinePlan p) = date p"
  by (simp add: combinePlan_def Let_def)

lemma withinDay_combinePlan:
  assumes "withinDay R p rem"
  shows "withinDay R (combinePlan p) rem"
proof -
  from assms have nn: "\<forall>s \<in> set (plannedTasks p). 0 \<le> allocatedHours s"
    and sum: "sumHours (plannedTasks p) + roundMinutes rem = R"
    and ne: "plannedTasks p \<noteq> [] \<longrightarrow> 0 \<le> roundMinutes rem"
    unfolding withinDay_def by blast+
  have 1: "\<forall>s \<in> set (plannedTasks (combinePlan p)). 0 \<le> allocatedHours s"
  proof
    fix s assume "s \<in> set (plannedTasks (combinePlan p))"
    then consider "s \<in> set (combinedSessionsOf (filter (\<lambda>s. status s \<noteq> Some Skipped) (plannedTasks p)))"
      | "s \<in> set (plannedTasks p)"
      unfolding plannedTasks_combinePlan by auto
    then show "0 \<le> allocatedHours s"
    proof cases
      case 1
      have "\<forall>s \<in> set (filter (\<lambda>s. status s \<noteq> Some Skipped) (plannedTasks p)). 0 \<le> allocatedHours s"
        using nn by simp
      from combinedSessionsOf_nonneg [OF this 1] show ?thesis .
    next
      case 2
      with nn show ?thesis by blast
    qed
  qed
  have "plannedTasks p = [] \<Longrightarrow> plannedTasks (combinePlan p) = []"
    by (simp add: plannedTasks_combinePlan combinedSessionsOf_def groupByTask_def)
  with ne have 3: "plannedTasks (combinePlan p) \<noteq> [] \<longrightarrow> 0 \<le> roundMinutes rem" by blast
  from 1 sum 3 show ?thesis
    unfolding withinDay_def sumHours_combinePlan by blast
qed

lemma evenInv_combine:
  assumes "evenInv R st"
  shows "evenInv R (combineSessionsOnSameDay (fst st), snd st)"
proof -
  have d: "map date (map combinePlan (fst st)) = map date (fst st)"
    by (simp add: date_combinePlan)
  have "withinDay R (combinePlan p) (snd st (date (combinePlan p)))" if "p \<in> set (fst st)" for p
    unfolding date_combinePlan using assms that
    by (intro withinDay_combinePlan) (simp add: evenInv_def)
  with assms show ?thesis
    unfolding evenInv_def combineSessionsOnSameDay_def fst_conv snd_conv d by auto
qed


lemma updatePlan_dates:
  "(\<And>p. date (f p) = date p) \<Longrightarrow> map date (updatePlan d f ps) = map date ps"
  by (induction ps) simp_all

lemma updatePlan_pointwise:
  assumes f: "\<And>p. date (f p) = date p"
    and step: "\<And>p. date p = d \<Longrightarrow> Q p (rem d) \<Longrightarrow> Q (f p) r'"
  shows "distinct (map date ps) \<Longrightarrow> \<forall>p \<in> set ps. Q p (rem (date p)) \<Longrightarrow>
    \<forall>p \<in> set (updatePlan d f ps). Q p ((rem(d := r')) (date p))"
proof (induction ps)
  case Nil
  show ?case by simp
next
  case (Cons p ps)
  show ?case
  proof (cases "date p = d")
    case True
    from Cons.prems(1) have notin: "date p \<notin> date ` set ps" by simp
    have others: "\<forall>q \<in> set ps. date q \<noteq> d"
    proof
      fix q assume "q \<in> set ps"
      then have "date q \<in> date ` set ps" by (rule imageI)
      with notin have "date q \<noteq> date p" by metis
      then show "date q \<noteq> d" unfolding True .
    qed
    from Cons.prems True have "Q (f p) r'" by (intro step) auto
    then have "Q (f p) ((rem(d := r')) (date (f p)))" by (simp add: f True)
    moreover have "\<forall>q \<in> set ps. Q q ((rem(d := r')) (date q))"
      using Cons.prems(2) others by simp
    ultimately show ?thesis using True by simp
  next
    case False
    from Cons.prems have "\<forall>q \<in> set (updatePlan d f ps). Q q ((rem(d := r')) (date q))"
      by (intro Cons.IH) simp_all
    moreover have "Q p ((rem(d := r')) (date p))"
      using Cons.prems(2) False by simp
    ultimately show ?thesis using False by simp
  qed
qed

lemma withinDay_push:
  assumes w: "withinDay R p rem" and wx: "wholeMinutes x" and x0: "0 \<le> x"
    and xle: "x \<le> roundMinutes rem" and s: "allocatedHours s = x"
  shows "withinDay R (p\<lparr>plannedTasks := plannedTasks p @ [s], totalStudyHours := t\<rparr>)
           (roundMinutes (rem - x))"
proof -
  have r: "roundMinutes (roundMinutes (rem - x)) = roundMinutes rem - x"
    by (simp only: roundMinutes_idem roundMinutes_sub [OF wx])
  from w have nn: "\<forall>s \<in> set (plannedTasks p). 0 \<le> allocatedHours s"
    and sum: "sumHours (plannedTasks p) + roundMinutes rem = R"
    unfolding withinDay_def by blast+
  show ?thesis
    unfolding withinDay_def r using nn sum x0 xle s by simp
qed

lemma pushRounded_inv:
  assumes inv: "evenInv R st" and wx: "wholeMinutes x" and x0: "0 \<le> x"
    and xle: "x \<le> roundMinutes (snd st d)"
  shows "evenInv R (pushRounded tid d x st)"
proof -
  obtain plans rem where st: "st = (plans, rem)" by (cases st)
  let ?f = "\<lambda>dayPlan. dayPlan
            \<lparr>plannedTasks := plannedTasks dayPlan @
               [newSession tid d Blank Blank x
                  (length (filter (\<lambda>s. taskId s = tid) (plannedTasks dayPlan)) + 1)],
             totalStudyHours := roundMinutes (totalStudyHours dayPlan + x)\<rparr>"
  have res: "pushRounded tid d x st = (updatePlan d ?f plans, rem(d := roundMinutes (rem d - x)))"
    by (simp add: pushRounded_def st)
  from inv st have dist: "distinct (map date plans)"
    and all: "\<forall>p \<in> set plans. withinDay R p (rem (date p))"
    by (simp_all add: evenInv_def)
  have fd: "date (?f q) = date q" for q by simp
  have step: "withinDay R (?f q) (roundMinutes (rem d - x))"
    if "date q = d" "withinDay R q (rem d)" for q
    using xle unfolding st snd_conv
    by (intro withinDay_push [OF that(2) wx x0]) (simp_all add: newSession_def)
  have "\<forall>q \<in> set (updatePlan d ?f plans). withinDay R q ((rem(d := roundMinutes (rem d - x))) (date q))"
    by (rule updatePlan_pointwise [where Q = "withinDay R" and f = ?f and rem = rem and d = d
          and r' = "roundMinutes (rem d - x)", OF fd step dist all])
  moreover have "map date (updatePlan d ?f plans) = map date plans"
    by (rule updatePlan_dates) simp
  ultimately show ?thesis
    unfolding res evenInv_def fst_conv snd_conv using dist by simp
qed

lemma push_min_inv:
  assumes inv: "evenInv R st" and pos: "0 < min len (snd st d)"
  shows "evenInv R (pushRounded tid d (roundMinutes (min len (snd st d))) st)"
proof (rule pushRounded_inv [OF inv])
  show "wholeMinutes (roundMinutes (min len (snd st d)))" by simp
  show "0 \<le> roundMinutes (min len (snd st d))"
    using pos by (intro roundMinutes_nonneg) simp
  show "roundMinutes (min len (snd st d)) \<le> roundMinutes (snd st d)"
    by (intro roundMinutes_mono) simp
qed

lemma assignStep_inv: "evenInv R (fst acc) \<Longrightarrow> evenInv R (fst (assignStep tid acc x))"
proof -
  assume inv: "evenInv R (fst acc)"
  obtain st u where acc: "acc = (st, u)" by (cases acc)
  obtain len d where x: "x = (len, d)" by (cases x)
  show ?thesis
    using inv push_min_inv [of R st len d tid]
    by (simp add: assignStep_def acc x Let_def)
qed

lemma minSessionLengthHours_pos: "0 < minSessionLengthHours settings"
  by (simp add: minSessionLengthHours_def)

lemma redistributeStep_inv:
  "evenInv R (fst acc) \<Longrightarrow> evenInv R (fst (redistributeStep settings tid acc x))"
proof -
  assume inv: "evenInv R (fst acc)"
  obtain st u where acc: "acc = (st, u)" by (cases acc)
  obtain len d where x: "x = (len, d)" by (cases x)
  have "evenInv R (pushRounded tid d (roundMinutes (min len (snd st d))) st)"
    if "minSessionLengthHours settings \<le> min len (snd st d)"
    using inv acc that minSessionLengthHours_pos [of settings]
    by (intro push_min_inv) simp_all
  then show ?thesis
    using inv by (simp add: redistributeStep_def acc x Let_def)
qed

lemma foldl_fst_inv:
  assumes "\<And>a x. P (fst a) \<Longrightarrow> P (fst (f a x))"
  shows "P (fst a) \<Longrightarrow> P (fst (foldl f a xs))"
  by (induction xs arbitrary: a) (simp_all add: assms)

lemma redistributeRounds_inv:
  "evenInv R st \<Longrightarrow> evenInv R (fst (redistributeRounds n settings tid ds h st))"
proof (induction n arbitrary: st h)
  case 0
  then show ?case by simp
next
  case (Suc n)
  let ?days = "filter (\<lambda>d. snd st d > 0) ds"
  let ?fold = "foldl (redistributeStep settings tid) (st, 0)
      (zip (optimizeSessionDistribution settings h (length ?days)) ?days)"
  obtain st' dist where f: "?fold = (st', dist)" by (cases ?fold)
  have "evenInv R (fst ?fold)"
    by (rule foldl_fst_inv [where P = "evenInv R"])
      (simp_all add: redistributeStep_inv Suc.prems)
  with f have inv': "evenInv R st'" by simp
  from Suc.IH [OF inv'] have "evenInv R (fst (redistributeRounds n settings tid ds (h - dist) st'))" .
  with inv' Suc.prems show ?case
    by (simp add: Let_def f)
qed

lemma redistributeUnscheduledHours_inv:
  "evenInv R st \<Longrightarrow> evenInv R (fst (redistributeUnscheduledHours settings task h ds st))"
  by (simp add: redistributeUnscheduledHours_def redistributeRounds_inv)

lemma distributeTask_inv:
  assumes "evenInv R st"
  shows "evenInv R (distributeTask settings days st task)"
proof -
  let ?ds = "daysForTaskOf settings days task"
  let ?fold = "foldl (assignStep (task_id task)) (st, 0)
      (zip (optimizeSessionDistribution settings (estimatedHours task) (length ?ds)) ?ds)"
  obtain st' u where f: "?fold = (st', u)" by (cases ?fold)
  have "evenInv R (fst ?fold)"
    by (rule foldl_fst_inv [where P = "evenInv R"]) (simp_all add: assignStep_inv assms)
  with f have inv': "evenInv R st'" by simp
  with assms show ?thesis
    by (simp add: distributeTask_def Let_def f redistributeUnscheduledHours_inv)
qed

lemma globalRedistributeTask_inv:
  "evenInv R st \<Longrightarrow> evenInv R (globalRedistributeTask settings days sched st task)"
  by (simp add: globalRedistributeTask_def Let_def redistributeUnscheduledHours_inv)

lemma redistributeMissedTask_inv:
  "evenInv R st \<Longrightarrow> evenInv R (redistributeMissedTask settings days byTask st task)"
  by (simp add: redistributeMissedTask_def redistributeUnscheduledHours_inv split: option.split)

lemma foldl_inv:
  assumes "\<And>a x. P a \<Longrightarrow> P (f a x)"
  shows "P a \<Longrightarrow> P (foldl f a xs)"
  by (induction xs arbitrary: a) (simp_all add: assms)

lemma assignSlotStep_hours:
  "map allocatedHours (snd (assignSlotStep settings cs d (a, out) s))
     = map allocatedHours out @ [allocatedHours s]"
  by (simp add: assignSlotStep_def Let_def split: option.split)

lemma assignSlots_hours:
  "map allocatedHours (snd (foldl (assignSlotStep settings cs d) (a, out) xs))
     = map allocatedHours out @ map allocatedHours xs"
proof (induction xs arbitrary: a out)
  case Nil
  show ?case by simp
next
  case (Cons x xs)
  obtain a' out' where step: "assignSlotStep settings cs d (a, out) x = (a', out')"
    by (cases "assignSlotStep settings cs d (a, out) x")
  from assignSlotStep_hours [of settings cs d a out x] step
  have "map allocatedHours out' = map allocatedHours out @ [allocatedHours x]" by simp
  with Cons.IH [of a' out'] step show ?case by simp
qed

lemma withinDay_assignTimeSlots:
  assumes "withinDay R p rem"
  shows "withinDay R (assignTimeSlots settings cs ts p) rem"
proof -
  let ?new = "plannedTasks (assignTimeSlots settings cs ts p)"
  have m: "map allocatedHours ?new = map allocatedHours (sortSessionsByTask ts (plannedTasks p))"
    by (simp add: assignTimeSlots_def assignSlots_hours)
  have ms: "mset (map allocatedHours ?new) = mset (map allocatedHours (plannedTasks p))"
    unfolding m by (simp add: sortSessionsByTask_def)
  from ms have sum: "sumHours ?new = sumHours (plannedTasks p)"
    unfolding sumHours_sum_list by (metis sum_mset_sum_list)
  from ms have "set (map allocatedHours ?new) = set (map allocatedHours (plannedTasks p))"
    by (metis set_mset_mset)
  then have img: "allocatedHours ` set ?new = allocatedHours ` set (plannedTasks p)"
    by simp
  from assms have nn: "\<forall>v \<in> allocatedHours ` set (plannedTasks p). 0 \<le> v"
    unfolding withinDay_def by blast
  then have nn': "\<forall>s \<in> set ?new. 0 \<le> allocatedHours s"
    unfolding img [symmetric] by blast
  from ms have "size (mset (map allocatedHours ?new)) = size (mset (map allocatedHours (plannedTasks p)))"
    by simp
  then have "length ?new = length (plannedTasks p)" by simp
  then have ne: "?new \<noteq> [] \<longrightarrow> plannedTasks p \<noteq> []" by auto
  from assms nn' ne show ?thesis
    unfolding withinDay_def sum by blast
qed

lemma date_assignTimeSlots: "date (assignTimeSlots settings cs ts p) = date p"
  by (simp add: assignTimeSlots_def)

lemma evenInv_assign:
  assumes "evenInv R st"
  shows "evenInv R (map (assignTimeSlots settings cs ts) (fst st), snd st)"
proof -
  have d: "map date (map (assignTimeSlots settings cs ts) (fst st)) = map date (fst st)"
    by (simp add: date_assignTimeSlots)
  have "withinDay R (assignTimeSlots settings cs ts p)
      (snd st (date (assignTimeSlots settings cs ts p)))" if "p \<in> set (fst st)" for p
    unfolding date_assignTimeSlots using assms that
    by (intro withinDay_assignTimeSlots) (simp add: evenInv_def)
  with assms show ?thesis
    unfolding evenInv_def fst_conv snd_conv d by auto
qed


lemma evenInv_sessions:
  assumes "evenInv R st" "p \<in> set (fst st)"
  shows "sessionsWithin R p"
proof -
  from assms have w: "withinDay R p (snd st (date p))" by (simp add: evenInv_def)
  then have nn: "\<forall>s \<in> set (plannedTasks p). 0 \<le> allocatedHours s"
    and sum: "sumHours (plannedTasks p) + roundMinutes (snd st (date p)) = R"
    and ne: "plannedTasks p \<noteq> [] \<longrightarrow> 0 \<le> roundMinutes (snd st (date p))"
    unfolding withinDay_def by blast+
  show ?thesis
    unfolding sessionsWithin_def
  proof
    fix s assume s: "s \<in> set (plannedTasks p)"
    then have "plannedTasks p \<noteq> []" by auto
    with ne sum have "sumHours (plannedTasks p) \<le> R" by simp
    moreover have "allocatedHours s \<le> sumHours (plannedTasks p)"
      unfolding sumHours_sum_list using nn s by (rule member_le_sum)
    ultimately show "0 \<le> allocatedHours s \<and> allocatedHours s \<le> R"
      using nn s by auto
  qed
qed

lemma generateEven_within:
  assumes "p \<in> set (fst (generateEven clk tasks settings cs ex))"
  shows "sessionsWithin (roundMinutes (dailyAvailableHours settings)) p"
proof -
  let ?R = "roundMinutes (dailyAvailableHours settings)"
  define tasksEven where "tasksEven = sortTasks (pendingTasks tasks)"
  define byTask where "byTask = missedSessionHoursByTask (missedSessionsToRedistribute clk tasks ex)"
  define days where "days = availableDaysOf clk settings tasksEven"
  define st0 :: evenState where
    "st0 = (map (emptyPlan settings) days, \<lambda>d. dailyAvailableHours settings)"
  define st1 where "st1 = foldl (distributeTask settings days) st0 tasksEven"
  define st2 where "st2 = (combineSessionsOnSameDay (fst st1), snd st1)"
  define more where "more = filter (\<lambda>task. estimatedHours task
      - taskScheduledHoursOf (fst st2) (task_id task) > 0) tasksEven"
  define stG where "stG = (if more \<noteq> []
      then foldl (globalRedistributeTask settings days (taskScheduledHoursOf (fst st2)))
             st2 (sortTasks more)
      else st2)"
  define st3 where "st3 = (if more \<noteq> [] then (combineSessionsOnSameDay (fst stG), snd stG) else st2)"
  define st4 where "st4 = (map (assignTimeSlots settings cs tasksEven) (fst st3), snd st3)"
  define st' where "st' = foldl (redistributeMissedTask settings days byTask) st4
      (sortTasks (List.map_filter (\<lambda>k. find (\<lambda>t. task_id t = k) tasksEven) (map fst byTask)))"
  define st5 where "st5 = (if byTask \<noteq> [] then (combineSessionsOnSameDay (fst st'), snd st') else st4)"
  have res: "fst (generateEven clk tasks settings cs ex) = fst st5"
    unfolding generateEven_def Let_def st5_def st'_def st4_def st3_def stG_def more_def st2_def
      st1_def st0_def days_def byTask_def tasksEven_def
    by (simp only: fst_conv)
  have i0: "evenInv ?R st0"
    by (simp add: evenInv_def st0_def withinDay_def emptyPlan_def comp_def sumHours_def
        days_def availableDaysOf_sorted)
  have i1: "evenInv ?R st1"
    unfolding st1_def by (rule foldl_inv [where P = "evenInv ?R"]) (simp_all add: distributeTask_inv i0)
  have i2: "evenInv ?R st2"
    unfolding st2_def by (rule evenInv_combine [OF i1])
  have iG: "evenInv ?R stG"
  proof (cases "more = []")
    case True
    with i2 show ?thesis by (simp add: stG_def)
  next
    case False
    have "evenInv ?R (foldl (globalRedistributeTask settings days (taskScheduledHoursOf (fst st2)))
             st2 (sortTasks more))"
      by (rule foldl_inv [where P = "evenInv ?R"]) (simp_all add: globalRedistributeTask_inv i2)
    with False show ?thesis by (simp add: stG_def)
  qed
  have i3: "evenInv ?R st3"
    using evenInv_combine [OF iG] i2 by (simp add: st3_def)
  have i4: "evenInv ?R st4"
    unfolding st4_def by (rule evenInv_assign [OF i3])
  have i': "evenInv ?R st'"
    unfolding st'_def
    by (rule foldl_inv [where P = "evenInv ?R"]) (simp_all add: redistributeMissedTask_inv i4)
  have i5: "evenInv ?R st5"
    using evenInv_combine [OF i'] i4 by (simp add: st5_def)
  from assms show ?thesis
    unfolding res by (rule evenInv_sessions [OF i5])
qed

lemma dayWithin_single:
  assumes "dayWithin R st"
  shows "dayWithin R (eisenhowerTasks settings cs d [t] st)"
proof -
  obtain p r a sched where st: "st = (p, r, a, sched)" by (cases st)
  from assms st have sw: "sessionsWithin R p" and rr: "roundMinutes r \<le> R"
    and ra: "roundMinutes a \<le> R"
    by (simp_all add: dayWithin_def)
  have place: "dayWithin R (placed t d slot (p, r, a, sched))"
    if pos: "0 < a" "0 < estimatedHours t - sched (task_id t)" for slot
  proof -
    let ?x = "roundMinutes (min (estimatedHours t - sched (task_id t)) a)"
    have wx: "wholeMinutes ?x" by simp
    have x0: "0 \<le> ?x" using pos by (intro roundMinutes_nonneg) simp
    have xa: "?x \<le> roundMinutes a" by (intro roundMinutes_mono) simp
    have 1: "roundMinutes (roundMinutes (r - ?x)) \<le> R"
      unfolding roundMinutes_idem roundMinutes_sub [OF wx] using rr x0 by simp
    have 2: "roundMinutes (roundMinutes (a - ?x)) \<le> R"
      unfolding roundMinutes_idem roundMinutes_sub [OF wx] using ra x0 by simp
    have 3: "?x \<le> R" using xa ra by simp
    show ?thesis
      using sw 1 2 3 x0
      by (simp add: placed_def dayWithin_def Let_def sessionsWithin_def newSession_def)
  qed
  show ?thesis
    using assms place unfolding st eisenhowerTasks_single
    by (simp split: option.split)
qed

lemma dayWithin_tasks:
  "dayWithin R st \<Longrightarrow> dayWithin R (eisenhowerTasks settings cs d ts st)"
proof (induction ts arbitrary: st)
  case Nil
  then show ?case by simp
next
  case (Cons t ts)
  from Cons.prems have "dayWithin R (eisenhowerTasks settings cs d [t] st)"
    by (rule dayWithin_single)
  then show ?case
    unfolding eisenhowerTasks_Cons [of settings cs d t ts] by (rule Cons.IH)
qed

lemma eisenhowerDay_within:
  assumes "\<forall>p \<in> set (fst st). sessionsWithin R p" "\<forall>d. roundMinutes (fst (snd st) d) \<le> R"
  shows "(\<forall>p \<in> set (fst (eisenhowerDay settings cs ts st d)). sessionsWithin R p)
       \<and> (\<forall>d'. roundMinutes (fst (snd (eisenhowerDay settings cs ts st d)) d') \<le> R)"
proof -
  obtain plans rem sched where st: "st = (plans, rem, sched)" by (cases st)
  show ?thesis
  proof (cases "find (\<lambda>p. date p = d) plans")
    case None
    with assms st show ?thesis by (simp add: eisenhowerDay_def)
  next
    case (Some dayPlan)
    let ?r = "eisenhowerTasks settings (commitmentsForDay cs d) d
        (filter (\<lambda>task. sched (task_id task) < estimatedHours task \<and> d \<le> bufferedDeadline settings task) ts)
        (dayPlan, rem d, rem d, sched)"
    from Some assms st have "dayWithin R (dayPlan, rem d, rem d, sched)"
      by (auto dest: find_in_set simp: dayWithin_def)
    then have c: "dayWithin R ?r" by (rule dayWithin_tasks)
    obtain dp r a sc where r: "?r = (dp, r, a, sc)" by (cases ?r)
    from c r have dp: "sessionsWithin R dp" and rr: "roundMinutes r \<le> R"
      by (simp_all add: dayWithin_def)
    have res: "eisenhowerDay settings cs ts st d = (updatePlan d (\<lambda>p. dp) plans, rem(d := r), sc)"
      using Some r by (simp add: eisenhowerDay_def st Let_def)
    have "\<forall>p \<in> set (updatePlan d (\<lambda>p. dp) plans). sessionsWithin R p"
      using assms(1) st dp set_updatePlan_const [of d dp plans] by auto
    moreover have "\<forall>d'. roundMinutes ((rem(d := r)) d') \<le> R"
      using assms(2) st rr by simp
    ultimately show ?thesis unfolding res by simp
  qed
qed

lemma eisenhowerDays_within:
  "(\<forall>p \<in> set (fst st). sessionsWithin R p) \<and> (\<forall>d. roundMinutes (fst (snd st) d) \<le> R) \<Longrightarrow>
   (\<forall>p \<in> set (fst (foldl (eisenhowerDay settings cs ts) st ds)). sessionsWithin R p)
     \<and> (\<forall>d. roundMinutes (fst (snd (foldl (eisenhowerDay settings cs ts) st ds)) d) \<le> R)"
proof (induction ds arbitrary: st)
  case Nil
  then show ?case by simp
next
  case (Cons d ds)
  from Cons.prems have a: "\<forall>p \<in> set (fst st). sessionsWithin R p"
    and b: "\<forall>d. roundMinutes (fst (snd st) d) \<le> R"
    by blast+
  note step = eisenhowerDay_within [OF a b, of settings cs ts d]
  from Cons.IH [OF step] show ?case by simp
qed

lemma generateEisenhower_within:
  assumes "p \<in> set (fst (generateEisenhower clk tasks settings cs))"
  shows "sessionsWithin (roundMinutes (dailyAvailableHours settings)) p"
proof -
  let ?R = "roundMinutes (dailyAvailableHours settings)"
  let ?ts = "sortTasks (pendingTasks tasks)"
  let ?st0 = "(map (emptyPlan settings) (availableDaysOf clk settings ?ts),
      (\<lambda>d. dailyAvailableHours settings), (\<lambda>tid. 0::real))"
  have "(\<forall>p \<in> set (fst ?st0). sessionsWithin ?R p) \<and> (\<forall>d. roundMinutes (fst (snd ?st0) d) \<le> ?R)"
    by (simp add: sessionsWithin_def emptyPlan_def)
  from eisenhowerDays_within [OF this]
  have "\<forall>p \<in> set (fst (foldl (eisenhowerDay settings cs ?ts) ?st0
      (availableDaysOf clk settings ?ts))). sessionsWithin ?R p"
    by blast
  with assms show ?thesis
    by (simp add: generateEisenhower_def Let_def)
qed

text \<open>
  Claim C2. Every regular session of a generated plan should be at least
  \<open>minSessionLength\<close> minutes and at most \<open>min 4 dailyAvailableHours\<close> hours long; the validator
  of the source rejects a plan set with a regular session outside these bounds. The sizing
  of even mode caps a session at four hours and then adds the remaining hours to the first
  session: the six-hour task with one day left gets one regular session of six hours, and the
  generated plan set fails \<open>validateStudyPlanConflicts\<close>. The first allocation also accepts any
  length above 0 where the redistribution asks for the minimum length: with sessions of at
  least 30 minutes, a task of two hours on a day with a quarter of an hour left gets a
  session of a quarter of an hour, in both modes.
\<close>

theorem generated_sessions_leave_bounds:
  "optimizeSessionDistribution evenSettings 6 1 = [6]
   \<and> map (\<lambda>p. map (\<lambda>s. (taskId s, status s, allocatedHours s)) (plannedTasks p))
        (fst (generateNewStudyPlan exampleClock [essayTask] evenSettings [] []))
       = [[(''t1'', Some Scheduled, 6)]]
   \<and> maxSessionLengthHours evenSettings = 4
   \<and> validateStudyPlanConflicts exampleClock
        (fst (generateNewStudyPlan exampleClock [essayTask] evenSettings [] [])) evenSettings []
   \<and> map (\<lambda>p. map (\<lambda>s. (taskId s, status s, allocatedHours s)) (plannedTasks p))
        (fst (generateNewStudyPlan exampleClock [longTask, shortTask] halfHourSettings [] []))
       = [[(''t1'', Some Scheduled, 31 / 4), (''t2'', Some Scheduled, 1 / 4)]]
   \<and> map (\<lambda>p. map (\<lambda>s. (taskId s, status s, allocatedHours s)) (plannedTasks p))
        (fst (generateNewStudyPlan exampleClock [longTask, shortTask]
               (halfHourSettings\<lparr>studyPlanMode := Some Eisenhower\<rparr>) [] []))
       = [[(''t1'', Some Scheduled, 31 / 4), (''t2'', Some Scheduled, 1 / 4)]]
   \<and> minSessionLengthHours halfHourSettings = 1 / 2"
  by code_simp

end
